theory Spec2Isabelle
  imports Complex_Main "HOL-Library.AList" "HOL-Library.Char_ord" "HOL-Library.List_Lexorder"
    "HOL-Library.Product_Lexorder"
begin

section \<open>Strings and insertion-ordered objects\<close>

text \<open>
  JavaScript strings are modelled as \<open>string\<close> (a list of characters). The single
  quote and the double quote are written by their codes.
\<close>

abbreviation squote :: char where
  "squote \<equiv> CHR 0x27"

abbreviation dquote :: char where
  "dquote \<equiv> CHR 0x22"

text \<open>
  \<^verbatim>\<open>s.replace(/c/g, rep)\<close> for a pattern that is one literal character: every
  occurrence of \<open>c\<close> is replaced by \<open>rep\<close>, left to right, and the replacement text is
  not scanned again.
\<close>

definition replace_all :: "char \<Rightarrow> string \<Rightarrow> string \<Rightarrow> string" where
  "replace_all c rep s = concat (map (\<lambda>x. if x = c then rep else [x]) s)"

text \<open>\<^verbatim>\<open>parts.join(sep)\<close>\<close>

fun join :: "string \<Rightarrow> string list \<Rightarrow> string" where
  "join sep [] = []"
| "join sep [x] = x"
| "join sep (x # y # ys) = x @ sep @ join sep (y # ys)"

section \<open>Utility functions\<close>

text \<open>
  The argument of \<^verbatim>\<open>escapeHtml\<close>: \<^verbatim>\<open>null\<close>, \<^verbatim>\<open>undefined\<close> or a string
  (\<^verbatim>\<open>String(str)\<close> is the identity on strings).
\<close>

datatype js_value = JNull | JUndefined | JString string

text \<open>
  \<^verbatim>\<open>
  function escapeHtml(str) {
      if (str === null || str === undefined) return '';
      return String(str)
          .replace(/&/g, '&amp;')
          .replace(/</g, '&lt;')
          .replace(/>/g, '&gt;')
          .replace(/"/g, '&quot;')
          .replace(/'/g, '&#039;');
  }
  \<close>
\<close>

fun escapeHtml :: "js_value \<Rightarrow> string" where
  "escapeHtml JNull = []"
| "escapeHtml JUndefined = []"
| "escapeHtml (JString str) =
     replace_all squote ''&#039;''
       (replace_all dquote ''&quot;''
         (replace_all (CHR ''>'') ''&gt;''
           (replace_all (CHR ''<'') ''&lt;''
             (replace_all (CHR ''&'') ''&amp;'' str))))"

text \<open>
  The entity of one character, as claim C10 words it: each of the five special
  characters has its HTML entity, every other character stands for itself.
\<close>

definition html_entity :: "char \<Rightarrow> string" where
  "html_entity c =
     (if c = CHR ''&'' then ''&amp;''
      else if c = CHR ''<'' then ''&lt;''
      else if c = CHR ''>'' then ''&gt;''
      else if c = dquote then ''&quot;''
      else if c = squote then ''&#039;''
      else [c])"

section \<open>Filter state\<close>

text \<open>
  \<^verbatim>\<open>
  const filterConfig = {
      'filter-role': 'role',
      'filter-org-size': 'org_size',
      'filter-industry': 'industry',
      'filter-region': 'region',
      'filter-ai-usage': 'ai_usage_frequency'
  };
  \<close>
  An object literal is the list of its entries in insertion order.
\<close>

definition filterConfig :: "(string \<times> string) list" where
  "filterConfig =
     [(''filter-role'', ''role''),
      (''filter-org-size'', ''org_size''),
      (''filter-industry'', ''industry''),
      (''filter-region'', ''region''),
      (''filter-ai-usage'', ''ai_usage_frequency'')]"

text \<open>
  The filter state: \<open>selects\<close> is \<^verbatim>\<open>document.getElementById(id).value\<close> for the
  form controls of the page (the empty string when nothing is chosen), and
  \<open>chartFilters\<close> is the global object \<^verbatim>\<open>const chartFilters = {}\<close>, kept as the
  list of its entries in insertion order. Assignment \<^verbatim>\<open>chartFilters[c] = v\<close> is
  \<open>AList.update\<close> (an existing key keeps its place, a new key goes last),
  \<^verbatim>\<open>delete chartFilters[c]\<close> is \<open>AList.delete\<close>, and reading \<^verbatim>\<open>chartFilters[c]\<close> is
  \<open>map_of\<close>, with \<open>None\<close> for \<^verbatim>\<open>undefined\<close>. The keys are column names; the
  properties an object inherits from \<^verbatim>\<open>Object.prototype\<close> are left out.
\<close>

record filter_state =
  selects :: "string \<Rightarrow> string"
  chartFilters :: "(string \<times> string) list"

text \<open>
  One condition of the clause, the template
  \<^verbatim>\<open>`${column} = '${escapedValue}'`\<close> with
  \<^verbatim>\<open>escapedValue = value.replace(/'/g, "''")\<close>.
\<close>

definition escapedValue :: "string \<Rightarrow> string" where
  "escapedValue v = replace_all squote [squote, squote] v"

definition condition :: "string \<Rightarrow> string \<Rightarrow> string" where
  "condition column v = column @ '' = '' @ [squote] @ escapedValue v @ [squote]"

text \<open>
  \<^verbatim>\<open>
  function getWhereClause() {
      const conditions = [];
      for (const [selectId, column] of Object.entries(filterConfig)) {
          const value = document.getElementById(selectId).value;
          if (value) {
              const escapedValue = value.replace(/'/g, "''");
              conditions.push(`${column} = '${escapedValue}'`);
          }
      }
      for (const [column, value] of Object.entries(chartFilters)) {
          const escapedValue = value.replace(/'/g, "''");
          conditions.push(`${column} = '${escapedValue}'`);
      }
      return conditions.length > 0 ? `WHERE ${conditions.join(' AND ')}` : '';
  }
  \<close>
  A string is truthy when it is not empty.
\<close>

definition sidebarConditions :: "'a filter_state_scheme \<Rightarrow> string list" where
  "sidebarConditions st =
     concat (map (\<lambda>(selectId, column).
                    let v = selects st selectId
                    in if v \<noteq> [] then [condition column v] else [])
                 filterConfig)"

definition chartConditions :: "'a filter_state_scheme \<Rightarrow> string list" where
  "chartConditions st = map (\<lambda>(column, v). condition column v) (chartFilters st)"

definition conditions :: "'a filter_state_scheme \<Rightarrow> string list" where
  "conditions st = sidebarConditions st @ chartConditions st"

definition getWhereClause :: "'a filter_state_scheme \<Rightarrow> string" where
  "getWhereClause st =
     (if length (conditions st) > 0 then ''WHERE '' @ join '' AND '' (conditions st) else [])"

text \<open>
  How the callers extend the clause. \<^verbatim>\<open>updateResponses\<close> appends its search
  condition with
  \<^verbatim>\<open>whereClause ? `${whereClause} AND ${searchCondition}` : `WHERE ${searchCondition}`\<close>;
  \<^verbatim>\<open>renderBarChart\<close> and \<^verbatim>\<open>updateCrosstab\<close> write, inside the query template, the
  clause, a line break with its indentation, and
  \<^verbatim>\<open>${whereClause ? 'AND' : 'WHERE'} ${column} IS NOT NULL\<close>.
\<close>

definition extendClause :: "string \<Rightarrow> string \<Rightarrow> string" where
  "extendClause whereClause extra =
     (if whereClause \<noteq> [] then whereClause @ '' AND '' @ extra else ''WHERE '' @ extra)"

definition templateClause :: "string \<Rightarrow> string \<Rightarrow> string \<Rightarrow> string" where
  "templateClause indent whereClause extra =
     whereClause @ indent @ (if whereClause \<noteq> [] then ''AND'' else ''WHERE'') @ '' '' @ extra"

text \<open>
  \<^verbatim>\<open>
  function addChartFilter(column, value) {
      if (chartFilters[column] === value) {
          delete chartFilters[column];
      } else {
          chartFilters[column] = value;
      }
      renderFilterPills();
      onFilterChange();
  }
  \<close>
  \<^verbatim>\<open>renderFilterPills\<close> and \<^verbatim>\<open>onFilterChange\<close> redraw and query again; neither writes
  to \<^verbatim>\<open>chartFilters\<close> or to a select.
\<close>

definition addChartFilter ::
  "string \<Rightarrow> string \<Rightarrow> 'a filter_state_scheme \<Rightarrow> 'a filter_state_scheme" where
  "addChartFilter column v st =
     (if map_of (chartFilters st) column = Some v
      then st\<lparr>chartFilters := AList.delete column (chartFilters st)\<rparr>
      else st\<lparr>chartFilters := AList.update column v (chartFilters st)\<rparr>)"

text \<open>
  The part of \<^verbatim>\<open>restoreStateFromUrl\<close> that restores the chart filters:
  \<^verbatim>\<open>
  const chartFilterParam = params.get('cf');
  if (chartFilterParam) {
      try {
          const filters = JSON.parse(decodeURIComponent(chartFilterParam));
          for (const [col, val] of Object.entries(filters)) {
              chartFilters[col] = val;
          }
          renderFilterPills();
      } catch (e) { ... }
  }
  \<close>
  The argument \<open>filters\<close> is the list of entries of the object parsed from the
  \<^verbatim>\<open>cf\<close> parameter of the page's URL, its values taken to be strings.
  \<^verbatim>\<open>restoreFiltersFromLocalStorage\<close> has the same loop over
  \<^verbatim>\<open>state._chartFilters\<close>.
\<close>

definition restoreChartFilters ::
  "(string \<times> string) list \<Rightarrow> 'a filter_state_scheme \<Rightarrow> 'a filter_state_scheme" where
  "restoreChartFilters filters st =
     st\<lparr>chartFilters := foldl (\<lambda>cf (col, val). AList.update col val cf) (chartFilters st) filters\<rparr>"

text \<open>
  The columns that the code itself names: the values of \<^verbatim>\<open>filterConfig\<close> and the
  \<^verbatim>\<open>column\<close> fields of \<^verbatim>\<open>chartConfig\<close> (the source of \<^verbatim>\<open>data-column\<close> on every
  clickable bar).
\<close>

definition chartColumns :: "string list" where
  "chartColumns =
     [''role'', ''org_size'', ''industry'', ''ai_usage_frequency'', ''storage_environment'',
      ''architecture_trend'', ''team_growth_2026'', ''biggest_bottleneck'', ''region'',
      ''modeling_approach'', ''modeling_pain_points'', ''education_topic'']"

definition allowlisted :: "string \<Rightarrow> bool" where
  "allowlisted column = (column \<in> set (map snd filterConfig) \<or> column \<in> set chartColumns)"

text \<open>
  The equalities that the clause imposes, as pairs of a column and a literal: the chosen
  sidebar values in the order of \<^verbatim>\<open>filterConfig\<close>, then the chart filters.
\<close>

definition activeFilters :: "'a filter_state_scheme \<Rightarrow> (string \<times> string) list" where
  "activeFilters st =
     map (\<lambda>(selectId, column). (column, selects st selectId))
         (filter (\<lambda>(selectId, column). selects st selectId \<noteq> []) filterConfig)
     @ chartFilters st"

text \<open>The empty page: no select has a value and no chart filter is set.\<close>

definition no_filters :: filter_state where
  "no_filters = \<lparr>selects = (\<lambda>_. []), chartFilters = []\<rparr>"

section \<open>The survey table and the analytical engine\<close>

text \<open>
  One row of the \<^verbatim>\<open>survey\<close> view: the value of each column, \<open>None\<close> for SQL
  \<^verbatim>\<open>NULL\<close>. The table is a list of rows.
\<close>

type_synonym response = "string \<Rightarrow> string option"

text \<open>
  \<^verbatim>\<open>
  const MULTI_SELECT_COLUMNS = ['modeling_pain_points', 'team_focus', 'ai_helps_with'];
  function isMultiSelect(column) {
      return MULTI_SELECT_COLUMNS.includes(column);
  }
  \<close>
\<close>

definition MULTI_SELECT_COLUMNS :: "string list" where
  "MULTI_SELECT_COLUMNS = [''modeling_pain_points'', ''team_focus'', ''ai_helps_with'']"

definition isMultiSelect :: "string \<Rightarrow> bool" where
  "isMultiSelect column = (column \<in> set MULTI_SELECT_COLUMNS)"

text \<open>
  The queries that \<^verbatim>\<open>updateCrosstab\<close> sends, by their parts: the detail query over
  the row and the column dimension, and a marginal-total query over one dimension. The
  last component is the list of equalities \<open>column = 'literal'\<close> that the interpolated
  \<^verbatim>\<open>whereClause\<close> consists of (\<open>activeFilters\<close>).
\<close>

datatype query =
    Detail string string "(string \<times> string) list"
  | Totals string "(string \<times> string) list"

text \<open>
  The analytical engine is an external collaborator; what follows is modelled from the
  SQL text of the queries. A row passes \<^verbatim>\<open>WHERE c1 = 'v1' AND ...\<close> when every named
  column is not \<^verbatim>\<open>NULL\<close> and equals its literal.
\<close>

definition satisfies :: "(string \<times> string) list \<Rightarrow> response \<Rightarrow> bool" where
  "satisfies fs r = list_all (\<lambda>(column, v). r column = Some v) fs"

text \<open>\<^verbatim>\<open>string_split(s, ',')\<close> and \<^verbatim>\<open>trim(s)\<close> (blanks at both ends removed).\<close>

fun string_split :: "string \<Rightarrow> char \<Rightarrow> string list" where
  "string_split [] sep = [[]]"
| "string_split (c # cs) sep =
     (if c = sep then [] # string_split cs sep
      else (case string_split cs sep of
              [] \<Rightarrow> [[c]]
            | p # ps \<Rightarrow> (c # p) # ps))"

definition trim :: "string \<Rightarrow> string" where
  "trim s = rev (dropWhile (\<lambda>c. c = CHR '' '') (rev (dropWhile (\<lambda>c. c = CHR '' '') s)))"

text \<open>
  The values one row contributes to a dimension: none when the column is \<^verbatim>\<open>NULL\<close>;
  the column's value for a single-valued dimension; for a multi-select dimension each
  token of \<^verbatim>\<open>unnest(string_split(column, ','))\<close>, trimmed.
\<close>

definition dim_tokens :: "string \<Rightarrow> response \<Rightarrow> string list" where
  "dim_tokens column r =
     (case r column of
        None \<Rightarrow> []
      | Some v \<Rightarrow> if isMultiSelect column then map trim (string_split v (CHR '','')) else [v])"

text \<open>\<^verbatim>\<open>GROUP BY\<close> with \<^verbatim>\<open>COUNT(*)\<close>: each distinct key once, with its number of occurrences.\<close>

definition group_count :: "'a list \<Rightarrow> ('a \<times> nat) list" where
  "group_count xs = map (\<lambda>k. (k, count_list xs k)) (remdups xs)"

text \<open>
  The detail query, for two single-valued dimensions:
  \<^verbatim>\<open>
  SELECT ${rowCol} as row_val, ${colCol} as col_val, COUNT(*) as count
  FROM survey
  ${whereClause}
  ${whereClause ? 'AND' : 'WHERE'} ${rowCol} IS NOT NULL AND ${colCol} IS NOT NULL
  GROUP BY ${rowCol}, ${colCol}
  ORDER BY ${rowCol}, ${colCol}
  \<close>
  For a multi-select dimension the query joins
  \<^verbatim>\<open>unnest(string_split(${rowCol}, ',')) as row_item(value)\<close> and selects and groups by
  \<^verbatim>\<open>trim(row_item.value)\<close> instead of the column (likewise for the column dimension).
  So: the rows passing the filters with both dimensions not \<^verbatim>\<open>NULL\<close>, one occurrence
  per pair of tokens, grouped and counted, ordered by row value and column value
  (strings compare by their characters' codes).
\<close>

definition detail_occurrences ::
  "response list \<Rightarrow> (string \<times> string) list \<Rightarrow> string \<Rightarrow> string \<Rightarrow> (string \<times> string) list" where
  "detail_occurrences db fs rowCol colCol =
     concat (map (\<lambda>r. List.product (dim_tokens rowCol r) (dim_tokens colCol r))
                 (filter (\<lambda>r. satisfies fs r \<and> r rowCol \<noteq> None \<and> r colCol \<noteq> None) db))"

definition detail_query ::
  "response list \<Rightarrow> (string \<times> string) list \<Rightarrow> string \<Rightarrow> string \<Rightarrow> (string \<times> string \<times> nat) list" where
  "detail_query db fs rowCol colCol =
     map (\<lambda>((row_val, col_val), n). (row_val, col_val, n))
         (sort_key fst (group_count (detail_occurrences db fs rowCol colCol)))"

text \<open>
  A marginal-total query, for a single-valued dimension:
  \<^verbatim>\<open>
  SELECT ${rowCol} as val, COUNT(*) as total
  FROM survey
  ${whereClause}
  ${whereClause ? 'AND' : 'WHERE'} ${rowCol} IS NOT NULL
  GROUP BY ${rowCol}
  ORDER BY total DESC
  \<close>
  and with \<^verbatim>\<open>unnest(string_split(${rowCol}, ',')) as item(value)\<close> and
  \<^verbatim>\<open>trim(item.value)\<close> for a multi-select dimension. So: the rows passing the filters
  with this one dimension not \<^verbatim>\<open>NULL\<close>, one occurrence per token, grouped and counted,
  in descending order of the total (SQL leaves the order of equal totals open; here they
  stay in the order of the grouping).
\<close>

definition totals_occurrences ::
  "response list \<Rightarrow> (string \<times> string) list \<Rightarrow> string \<Rightarrow> string list" where
  "totals_occurrences db fs column =
     concat (map (dim_tokens column) (filter (\<lambda>r. satisfies fs r \<and> r column \<noteq> None) db))"

definition totals_query ::
  "response list \<Rightarrow> (string \<times> string) list \<Rightarrow> string \<Rightarrow> (string \<times> nat) list" where
  "totals_query db fs column =
     sort_key (\<lambda>(v, total). - int total) (group_count (totals_occurrences db fs column))"

section \<open>The crosstab\<close>

text \<open>
  The object stored in \<^verbatim>\<open>crosstabData\<close>. A JavaScript \<^verbatim>\<open>Map\<close> is the list of its
  entries in insertion order: \<^verbatim>\<open>m.set(k, v)\<close> is \<open>AList.update\<close>, \<^verbatim>\<open>m.get(k)\<close> is
  \<open>map_of\<close>, \<^verbatim>\<open>m.keys()\<close> is \<open>map fst\<close> and \<^verbatim>\<open>m.values()\<close> is \<open>map snd\<close>. Counts are
  natural numbers (\<^verbatim>\<open>Number\<close> of a \<^verbatim>\<open>COUNT(*)\<close>).
\<close>

record crosstab_data =
  rows :: "string list"
  cols :: "string list"
  matrix :: "(string \<times> nat) list"
  rowTotals :: "(string \<times> nat) list"
  colTotals :: "(string \<times> nat) list"
  grandTotal :: nat
  rowCol :: string
  colCol :: string
  metric :: string

text \<open>\<^verbatim>\<open>new Map(entries)\<close> sets the entries one after the other.\<close>

definition new_Map :: "('k \<times> 'v) list \<Rightarrow> ('k \<times> 'v) list" where
  "new_Map entries = foldl (\<lambda>m (k, v). AList.update k v m) [] entries"

text \<open>The key of a cell, \<^verbatim>\<open>`${row}|||${col}`\<close>.\<close>

definition cell_key :: "string \<Rightarrow> string \<Rightarrow> string" where
  "cell_key row col = row @ ''|||'' @ col"

text \<open>
  The assembly in \<^verbatim>\<open>updateCrosstab\<close>, from the three results:
  \<^verbatim>\<open>
  const rowTotals = new Map(rowTotalsResult.toArray().map(r => [r.val, Number(r.total)]));
  const colTotals = new Map(colTotalsResult.toArray().map(r => [r.val, Number(r.total)]));
  const rows = Array.from(rowTotals.keys());
  const cols = Array.from(colTotals.keys());
  const matrix = new Map();
  for (const d of data) {
      const key = `${d.row_val}|||${d.col_val}`;
      matrix.set(key, Number(d.count));
  }
  const grandTotal = Array.from(rowTotals.values()).reduce((a, b) => a + b, 0);
  crosstabData = {
      rows, cols, matrix, rowTotals, colTotals, grandTotal, rowCol, colCol, metric
  };
  \<close>
\<close>

definition assemble ::
  "string \<Rightarrow> string \<Rightarrow> string \<Rightarrow> (string \<times> string \<times> nat) list \<Rightarrow> (string \<times> nat) list
     \<Rightarrow> (string \<times> nat) list \<Rightarrow> crosstab_data" where
  "assemble rowCol' colCol' metric' data rowTotalsResult colTotalsResult =
     (let rowTotals' = new_Map rowTotalsResult;
          colTotals' = new_Map colTotalsResult;
          rows' = map fst rowTotals';
          cols' = map fst colTotals';
          matrix' = foldl (\<lambda>m (row_val, col_val, n). AList.update (cell_key row_val col_val) n m)
                      [] data;
          grandTotal' = foldl (\<lambda>a b. a + b) 0 (map snd rowTotals')
      in \<lparr>rows = rows', cols = cols', matrix = matrix', rowTotals = rowTotals',
          colTotals = colTotals', grandTotal = grandTotal', rowCol = rowCol', colCol = colCol',
          metric = metric'\<rparr>)"

text \<open>
  The crosstab that an invocation assembles from the engine's three answers, for the
  filters \<open>fs\<close>, the dimensions \<open>rc\<close> and \<open>cc\<close> and the metric \<open>m\<close>.
\<close>

definition crosstab_of ::
  "response list \<Rightarrow> (string \<times> string) list \<Rightarrow> string \<Rightarrow> string \<Rightarrow> string \<Rightarrow> crosstab_data" where
  "crosstab_of db fs rc cc m =
     assemble rc cc m (detail_query db fs rc cc) (totals_query db fs rc) (totals_query db fs cc)"

text \<open>
  The cell keys of a table are free of collisions when different pairs of a row value
  and a column value have different keys.
\<close>

definition no_key_collision :: "string list \<Rightarrow> string list \<Rightarrow> bool" where
  "no_key_collision rs cs = distinct (map (\<lambda>(r, c). cell_key r c) (List.product rs cs))"

section \<open>JavaScript numbers\<close>

text \<open>
  A JavaScript number is a binary64 floating-point value. The numbers of this page are
  finite and not negative; such a number is kept as the rational it denotes, and every
  arithmetic operation gives the exact result rounded to the nearest binary64 value,
  ties to the even significand (\<open>round64\<close>). A decimal literal such as \<^verbatim>\<open>0.15\<close> is
  the rounded value of the decimal. A count is an integer; integers below \<open>2^53\<close> are
  binary64 values, so \<^verbatim>\<open>Number\<close> of a count is the count. Values of \<open>2^1024\<close> and
  more, which overflow to \<^verbatim>\<open>Infinity\<close>, do not arise from counts, percentages and
  intensities and are not modelled.

  \<open>bits n\<close> is the number of binary digits of a positive integer. \<open>binade x\<close> is the
  exponent \<open>e\<close> with \<open>2^e \<le> x < 2^(e+1)\<close> of a positive rational. A binary64 value has
  53 significant bits and an exponent of at least \<open>-1022\<close>, so near \<open>x\<close> the values are
  the multiples of \<open>2^(max e (-1022) - 52)\<close>.
\<close>

function bits :: "int \<Rightarrow> nat" where
  "bits n = (if n \<le> 0 then 0 else Suc (bits (n div 2)))"
  by pat_completeness auto
termination
  by (relation "measure nat") auto

declare bits.simps [simp del]

definition binade :: "rat \<Rightarrow> int" where
  "binade x =
     (if 1 \<le> x then int (bits \<lfloor>x\<rfloor>) - 1
      else - int (bits (\<lceil>1 / x\<rceil> - 1)))"

definition pow2 :: "int \<Rightarrow> rat" where
  "pow2 k = (if 0 \<le> k then of_int (2 ^ nat k) else 1 / of_int (2 ^ nat (- k)))"

definition round_half_even :: "rat \<Rightarrow> int" where
  "round_half_even r =
     (let f = \<lfloor>r\<rfloor>; d = r - of_int f
      in if d < 1 / 2 then f
         else if 1 / 2 < d then f + 1
         else if even f then f else f + 1)"

definition round64 :: "rat \<Rightarrow> rat" where
  "round64 x =
     (if x = 0 then 0
      else (let a = \<bar>x\<bar>;
                q = pow2 (max (binade a) (- 1022) - 52)
            in sgn x * (of_int (round_half_even (a / q)) * q)))"

section \<open>Rendering the crosstab\<close>

text \<open>
  The alpha of a colour is the binary64 value that \<^verbatim>\<open>getHeatmapColor\<close> computes; its
  decimal text inside \<^verbatim>\<open>rgba(...)\<close> is left out.
\<close>

datatype color = Transparent | Rgba nat nat nat rat

datatype text_color = White | TextPrimary

text \<open>
  \<^verbatim>\<open>
  function getHeatmapColor(intensity) {
      if (intensity === 0) return 'transparent';
      const minAlpha = 0.15;
      const maxAlpha = 0.85;
      const alpha = minAlpha + (intensity * (maxAlpha - minAlpha));
      return `rgba(88, 166, 255, ${alpha})`;
  }
  \<close>
\<close>

definition minAlpha :: rat where
  "minAlpha = round64 (15 / 100)"

definition maxAlpha :: rat where
  "maxAlpha = round64 (85 / 100)"

definition heatmapAlpha :: "rat \<Rightarrow> rat" where
  "heatmapAlpha intensity =
     round64 (minAlpha + round64 (intensity * round64 (maxAlpha - minAlpha)))"

definition getHeatmapColor :: "rat \<Rightarrow> color" where
  "getHeatmapColor intensity =
     (if intensity = 0 then Transparent else Rgba 88 166 255 (heatmapAlpha intensity))"

text \<open>
  In \<^verbatim>\<open>renderCrosstabTable\<close>, for each cell:
  \<^verbatim>\<open>
  const intensity = maxValue > 0 ? value / maxValue : 0;
  const bgColor = getHeatmapColor(intensity);
  const textColor = intensity > 0.5 ? '#ffffff' : 'var(--color-text-primary)';
  \<close>
\<close>

definition intensity :: "rat \<Rightarrow> rat \<Rightarrow> rat" where
  "intensity v maxValue = (if maxValue > 0 then round64 (v / maxValue) else 0)"

definition textColor :: "rat \<Rightarrow> text_color" where
  "textColor i = (if i > 5 / 10 then White else TextPrimary)"

text \<open>
  \<^verbatim>\<open>matrix.get(`${row}|||${col}`) || 0\<close> and \<^verbatim>\<open>totals.get(key)\<close>. The totals are
  read only at keys of the map (\<open>rows\<close> and \<open>cols\<close> are its keys); \<open>total_of\<close> gives 0
  elsewhere.
\<close>

definition cell_count :: "crosstab_data \<Rightarrow> string \<Rightarrow> string \<Rightarrow> nat" where
  "cell_count cd row col =
     (case map_of (matrix cd) (cell_key row col) of None \<Rightarrow> 0 | Some n \<Rightarrow> n)"

definition total_of :: "(string \<times> nat) list \<Rightarrow> string \<Rightarrow> nat" where
  "total_of totals k = (case map_of totals k of None \<Rightarrow> 0 | Some n \<Rightarrow> n)"

text \<open>
  \<^verbatim>\<open>
  const count = matrix.get(`${row}|||${col}`) || 0;
  if (metric === 'row_pct') {
      values[col] = rowTotals.get(row) > 0 ? (count / rowTotals.get(row)) * 100 : 0;
  } else if (metric === 'col_pct') {
      values[col] = colTotals.get(col) > 0 ? (count / colTotals.get(col)) * 100 : 0;
  } else {
      values[col] = count;
  }
  \<close>
\<close>

definition metric_value :: "crosstab_data \<Rightarrow> string \<Rightarrow> string \<Rightarrow> rat" where
  "metric_value cd row col =
     (let n = cell_count cd row col
      in if metric cd = ''row_pct''
         then (if total_of (rowTotals cd) row > 0
               then round64 (round64 (of_nat n / of_nat (total_of (rowTotals cd) row)) * 100)
               else 0)
         else if metric cd = ''col_pct''
         then (if total_of (colTotals cd) col > 0
               then round64 (round64 (of_nat n / of_nat (total_of (colTotals cd) col)) * 100)
               else 0)
         else of_nat n)"

text \<open>
  One element of \<^verbatim>\<open>rowData\<close>, \<^verbatim>\<open>{ row, values, total: rowTotals.get(row) }\<close>; the
  object \<^verbatim>\<open>values\<close> is the list of its entries.
\<close>

record row_data =
  row :: string
  vals :: "(string \<times> rat) list"
  total :: nat

definition rowData :: "crosstab_data \<Rightarrow> row_data list" where
  "rowData cd =
     map (\<lambda>r. \<lparr>row = r,
               vals = foldl (\<lambda>vs col. AList.update col (metric_value cd r col) vs) [] (cols cd),
               total = total_of (rowTotals cd) r\<rparr>)
         (rows cd)"

text \<open>\<^verbatim>\<open>rd.values[key] || 0\<close>\<close>

definition val_or0 :: "row_data \<Rightarrow> string \<Rightarrow> rat" where
  "val_or0 rd key = (case map_of (vals rd) key of None \<Rightarrow> 0 | Some v \<Rightarrow> v)"

datatype sort_dir = Asc | Desc

text \<open>
  The sort of \<^verbatim>\<open>renderCrosstabTable\<close>:
  \<^verbatim>\<open>
  rowData.sort((a, b) => {
      let aVal, bVal;
      if (crosstabSortCol === '_total') {
          aVal = a.total;
          bVal = b.total;
      } else {
          aVal = a.values[crosstabSortCol] || 0;
          bVal = b.values[crosstabSortCol] || 0;
      }
      return crosstabSortDir === 'desc' ? bVal - aVal : aVal - bVal;
  });
  \<close>
  \<^verbatim>\<open>crosstabSortCol\<close> is \<^verbatim>\<open>null\<close> (here \<open>None\<close>) or a string; as a property key
  \<^verbatim>\<open>null\<close> reads the property named \<^verbatim>\<open>"null"\<close>. \<^verbatim>\<open>Array.prototype.sort\<close> is stable,
  and the comparator orders by one number per row, so the result is the stable sort by
  that number, ascending or descending.
\<close>

definition sort_value :: "string option \<Rightarrow> row_data \<Rightarrow> rat" where
  "sort_value sortCol rd =
     (if sortCol = Some ''_total'' then of_nat (total rd)
      else val_or0 rd (case sortCol of None \<Rightarrow> ''null'' | Some c \<Rightarrow> c))"

definition sortRows :: "string option \<Rightarrow> sort_dir \<Rightarrow> row_data list \<Rightarrow> row_data list" where
  "sortRows sortCol dir rds =
     (if dir = Desc then sort_key (\<lambda>rd. - sort_value sortCol rd) rds
      else sort_key (sort_value sortCol) rds)"

text \<open>
  \<^verbatim>\<open>
  let maxValue = 0;
  for (const rd of rowData) {
      for (const col of cols) {
          maxValue = Math.max(maxValue, rd.values[col] || 0);
      }
  }
  \<close>
\<close>

definition maxValue :: "row_data list \<Rightarrow> string list \<Rightarrow> rat" where
  "maxValue rds cs = foldl (\<lambda>m rd. foldl (\<lambda>m col. max m (val_or0 rd col)) m cs) 0 rds"

text \<open>
  The table written to \<^verbatim>\<open>#crosstab-results\<close>, by its content instead of its HTML text:
  the column headers with the sort arrow of the active one, the arrow of the
  \<^verbatim>\<open>Total\<close> header, the body rows in sorted order with value, background, text colour
  and response count of each cell, the column totals and the grand total. The number
  formats, \<^verbatim>\<open>truncateText\<close> and \<^verbatim>\<open>escapeHtml\<close> applied to the labels are left out.
\<close>

record cell_view =
  cell_value :: rat
  background :: color
  foreground :: text_color
  responses :: nat

record row_view =
  row_header :: string
  row_cells :: "cell_view list"
  row_total :: nat

record table_view =
  col_headers :: "(string \<times> sort_dir option) list"
  total_header :: "sort_dir option"
  body :: "row_view list"
  col_totals :: "nat list"
  grand_total :: nat

datatype crosstab_view =
    Unrendered
  | SelectDifferentDimensions
  | NoDataMatches
  | ErrorText string
  | Table table_view

section \<open>Page state and updateCrosstab\<close>

text \<open>
  The page state extends the filter state by the crosstab's globals
  (\<^verbatim>\<open>crosstabSortCol\<close>, \<^verbatim>\<open>crosstabSortDir\<close>, \<^verbatim>\<open>crosstabData\<close>), the content of the
  container \<^verbatim>\<open>#crosstab-results\<close>, and the queries sent with \<^verbatim>\<open>conn.query\<close> so far.
  The selects \<^verbatim>\<open>crosstab-rows\<close>, \<^verbatim>\<open>crosstab-cols\<close> and \<^verbatim>\<open>crosstab-metric\<close> are read
  through \<open>selects\<close>.
\<close>

record page = filter_state +
  crosstabSortCol :: "string option"
  crosstabSortDir :: sort_dir
  crosstabData :: "crosstab_data option"
  crosstab_results :: crosstab_view
  issued :: "query list"

definition cellView :: "crosstab_data \<Rightarrow> rat \<Rightarrow> row_data \<Rightarrow> string \<Rightarrow> cell_view" where
  "cellView cd mx rd col =
     (let v = val_or0 rd col;
          n = cell_count cd (row rd) col;
          i = intensity v mx
      in \<lparr>cell_value = v, background = getHeatmapColor i, foreground = textColor i,
          responses = n\<rparr>)"

definition tableView :: "string option \<Rightarrow> sort_dir \<Rightarrow> crosstab_data \<Rightarrow> table_view" where
  "tableView sortCol dir cd =
     (let rds = sortRows sortCol dir (rowData cd);
          mx = maxValue rds (cols cd)
      in \<lparr>col_headers = map (\<lambda>col. (col, if sortCol = Some col then Some dir else None)) (cols cd),
          total_header = (if sortCol = Some ''_total'' then Some dir else None),
          body = map (\<lambda>rd. \<lparr>row_header = row rd,
                             row_cells = map (cellView cd mx rd) (cols cd),
                             row_total = total rd\<rparr>) rds,
          col_totals = map (total_of (colTotals cd)) (cols cd),
          grand_total = grandTotal cd\<rparr>)"

text \<open>
  \<^verbatim>\<open>renderCrosstabTable\<close>: nothing happens without \<^verbatim>\<open>crosstabData\<close>; otherwise the
  table is built from the stored data and the sort state and written to the container.
\<close>

definition renderCrosstabTable :: "page \<Rightarrow> page" where
  "renderCrosstabTable st =
     (case crosstabData st of
        None \<Rightarrow> st
      | Some cd \<Rightarrow>
          st\<lparr>crosstab_results := Table (tableView (crosstabSortCol st) (crosstabSortDir st) cd)\<rparr>)"


text \<open>
  \<^verbatim>\<open>updateCrosstab\<close> is an \<^verbatim>\<open>async\<close> function with two \<^verbatim>\<open>await\<close>s; it runs in three
  synchronous parts. What an invocation keeps in its local variables between the parts
  is a \<open>request\<close>: \<^verbatim>\<open>rowCol\<close>, \<^verbatim>\<open>colCol\<close>, \<^verbatim>\<open>metric\<close> and \<^verbatim>\<open>whereClause\<close>.
\<close>

record request =
  req_rowCol :: string
  req_colCol :: string
  req_metric :: string
  req_where :: "(string \<times> string) list"

text \<open>
  First part, up to \<^verbatim>\<open>await conn.query(query)\<close>: equal dimensions give the
  placeholder and the function returns; otherwise the detail query is sent.
\<close>

definition updateCrosstab_begin :: "page \<Rightarrow> page \<times> request option" where
  "updateCrosstab_begin st =
     (let rowCol' = selects st ''crosstab-rows'';
          colCol' = selects st ''crosstab-cols'';
          metric' = selects st ''crosstab-metric''
      in if rowCol' = colCol'
         then (st\<lparr>crosstab_results := SelectDifferentDimensions\<rparr>, None)
         else (let whereClause = activeFilters st
               in (st\<lparr>issued := issued st @ [Detail rowCol' colCol' whereClause]\<rparr>,
                   Some \<lparr>req_rowCol = rowCol', req_colCol = colCol', req_metric = metric',
                         req_where = whereClause\<rparr>)))"

text \<open>
  Second part, from the detail result to \<^verbatim>\<open>await Promise.all([...])\<close>. A failed query
  (\<open>Inl\<close> with the message) is caught and shown in the container; an empty result gives
  the no-data placeholder; otherwise the two marginal-total queries are sent. The
  second component tells whether the invocation goes on.
\<close>

definition updateCrosstab_detail ::
  "request \<Rightarrow> string + (string \<times> string \<times> nat) list \<Rightarrow> page \<Rightarrow> page \<times> bool" where
  "updateCrosstab_detail rq result st =
     (case result of
        Inl message \<Rightarrow> (st\<lparr>crosstab_results := ErrorText message\<rparr>, False)
      | Inr data \<Rightarrow>
          if length data = 0 then (st\<lparr>crosstab_results := NoDataMatches\<rparr>, False)
          else (st\<lparr>issued := issued st @ [Totals (req_rowCol rq) (req_where rq),
                                           Totals (req_colCol rq) (req_where rq)]\<rparr>, True))"

text \<open>
  Third part, from the two marginal totals to the end: the data is assembled and
  stored, the sort is reset and the table rendered.
  \<^verbatim>\<open>
  crosstabSortCol = '_total';
  crosstabSortDir = 'desc';
  renderCrosstabTable();
  \<close>
\<close>

definition updateCrosstab_totals ::
  "request \<Rightarrow> (string \<times> string \<times> nat) list
     \<Rightarrow> string + ((string \<times> nat) list \<times> (string \<times> nat) list) \<Rightarrow> page \<Rightarrow> page" where
  "updateCrosstab_totals rq data result st =
     (case result of
        Inl message \<Rightarrow> st\<lparr>crosstab_results := ErrorText message\<rparr>
      | Inr (rowTotalsResult, colTotalsResult) \<Rightarrow>
          renderCrosstabTable
            (st\<lparr>crosstabData := Some (assemble (req_rowCol rq) (req_colCol rq) (req_metric rq)
                                        data rowTotalsResult colTotalsResult),
                crosstabSortCol := Some ''_total'',
                crosstabSortDir := Desc\<rparr>))"

text \<open>
  One invocation run to its end over the table \<open>db\<close>, each query answered by the engine
  before anything else happens.
\<close>

definition updateCrosstab :: "response list \<Rightarrow> page \<Rightarrow> page" where
  "updateCrosstab db st =
     (case updateCrosstab_begin st of
        (st1, None) \<Rightarrow> st1
      | (st1, Some rq) \<Rightarrow>
          (let data = detail_query db (req_where rq) (req_rowCol rq) (req_colCol rq)
           in case updateCrosstab_detail rq (Inr data) st1 of
                (st2, False) \<Rightarrow> st2
              | (st2, True) \<Rightarrow>
                  updateCrosstab_totals rq data
                    (Inr (totals_query db (req_where rq) (req_rowCol rq),
                          totals_query db (req_where rq) (req_colCol rq))) st2))"

section \<open>Overlapping invocations\<close>

text \<open>
  JavaScript runs one synchronous part at a time; between the parts of one invocation,
  events and the parts of other invocations may run. A pending invocation waits for its
  detail result or for its marginal totals. The events are: \<^verbatim>\<open>updateCrosstab()\<close> is
  called; the user clicks a chart bar (\<^verbatim>\<open>addChartFilter\<close>; the queries that
  \<^verbatim>\<open>onFilterChange\<close> then sends arrive as later calls); the answer awaited by the
  pending invocation number \<open>i\<close> arrives. No invocation carries a generation number
  and no part compares one: the source has none.
\<close>

datatype task =
    AwaitDetail request
  | AwaitTotals request "(string \<times> string \<times> nat) list"

record app =
  the_page :: page
  tasks :: "task list"

datatype event =
    Invoke
  | ClickBar string string
  | Arrive nat

definition remove_nth :: "nat \<Rightarrow> 'a list \<Rightarrow> 'a list" where
  "remove_nth i xs = take i xs @ drop (Suc i) xs"

fun step :: "response list \<Rightarrow> app \<Rightarrow> event \<Rightarrow> app" where
  "step db a Invoke =
     (case updateCrosstab_begin (the_page a) of
        (st, None) \<Rightarrow> a\<lparr>the_page := st\<rparr>
      | (st, Some rq) \<Rightarrow> a\<lparr>the_page := st, tasks := tasks a @ [AwaitDetail rq]\<rparr>)"
| "step db a (ClickBar column v) = a\<lparr>the_page := addChartFilter column v (the_page a)\<rparr>"
| "step db a (Arrive i) =
     (if i < length (tasks a) then
        (case tasks a ! i of
           AwaitDetail rq \<Rightarrow>
             (let data = detail_query db (req_where rq) (req_rowCol rq) (req_colCol rq)
              in case updateCrosstab_detail rq (Inr data) (the_page a) of
                   (st, False) \<Rightarrow> a\<lparr>the_page := st, tasks := remove_nth i (tasks a)\<rparr>
                 | (st, True) \<Rightarrow> a\<lparr>the_page := st, tasks := (tasks a)[i := AwaitTotals rq data]\<rparr>)
         | AwaitTotals rq data \<Rightarrow>
             a\<lparr>the_page := updateCrosstab_totals rq data
                              (Inr (totals_query db (req_where rq) (req_rowCol rq),
                                    totals_query db (req_where rq) (req_colCol rq)))
                              (the_page a),
               tasks := remove_nth i (tasks a)\<rparr>)
      else a)"

definition run :: "response list \<Rightarrow> app \<Rightarrow> event list \<Rightarrow> app" where
  "run db a events = foldl (step db) a events"

text \<open>The page after loading: nothing chosen, nothing rendered, nothing sent.\<close>

definition initial_page :: "(string \<Rightarrow> string) \<Rightarrow> page" where
  "initial_page sel =
     \<lparr>selects = sel, chartFilters = [], crosstabSortCol = None, crosstabSortDir = Desc,
      crosstabData = None, crosstab_results = Unrendered, issued = []\<rparr>"

section \<open>Example tables\<close>

text \<open>Three responses; the third has a role and no region.\<close>

definition survey_with_null :: "response list" where
  "survey_with_null =
     [map_of [(''role'', ''Analyst''), (''region'', ''Europe'')],
      map_of [(''role'', ''Engineer''), (''region'', ''Asia'')],
      map_of [(''role'', ''Analyst'')]]"

text \<open>
  Three responses whose values contain the separator of the cell key: the key of the
  pair (\<open>a\<close>, \<open>b|||c\<close>) is the key of the pair (\<open>a|||b\<close>, \<open>c\<close>).
\<close>

definition survey_colliding :: "response list" where
  "survey_colliding =
     [map_of [(''role'', ''a|||b''), (''region'', ''c'')],
      map_of [(''role'', ''a''), (''region'', ''d'')],
      map_of [(''role'', ''e''), (''region'', ''b|||c'')]]"

text \<open>The crosstab controls set to the pivot of role by region, metric count.\<close>

definition pivot_selects :: "string \<Rightarrow> string" where
  "pivot_selects ident =
     (if ident = ''crosstab-rows'' then ''role''
      else if ident = ''crosstab-cols'' then ''region''
      else if ident = ''crosstab-metric'' then ''count''
      else [])"

text \<open>
  Two responses; the second has no region, so that under the filter
  \<open>industry = 'Retail'\<close> the detail query of role by region has no rows.
\<close>

definition survey_partial :: "response list" where
  "survey_partial =
     [map_of [(''role'', ''Analyst''), (''region'', ''Europe''), (''industry'', ''Tech'')],
      map_of [(''role'', ''Engineer''), (''industry'', ''Retail'')]]"

text \<open>
  The page after loading with the pivot chosen, no invocation pending; and a sequence
  of events in which the answers arrive in the order of the queries: an invocation
  starts, the user clicks the bar \<open>Retail\<close> of the industry chart, a second invocation
  starts, the first receives its detail rows, the second receives its (empty) detail
  result, and the first receives its marginal totals.
\<close>

definition fresh_app :: app where
  "fresh_app = \<lparr>the_page = initial_page pivot_selects, tasks = []\<rparr>"

definition superseded_trace :: "event list" where
  "superseded_trace =
     [Invoke, ClickBar ''industry'' ''Retail'', Invoke, Arrive 0, Arrive 1, Arrive 0]"

section \<open>Properties\<close>

subsection \<open>Replacement\<close>

lemma replace_all_append:
  "replace_all c rep (xs @ ys) = replace_all c rep xs @ replace_all c rep ys"
  by (simp add: replace_all_def)

subsection \<open>escapeHtml\<close>

lemma escape_one: "escapeHtml (JString [a]) = html_entity a"
  by (simp add: replace_all_def html_entity_def)

lemma escapeHtml_Cons:
  "escapeHtml (JString (a # s)) = html_entity a @ escapeHtml (JString s)"
proof -
  have split: "a # s = [a] @ s" by simp
  have "escapeHtml (JString ([a] @ s)) = escapeHtml (JString [a]) @ escapeHtml (JString s)"
    unfolding escapeHtml.simps replace_all_append ..
  then show ?thesis
    unfolding escape_one split .
qed

lemma escapeHtml_concat: "escapeHtml (JString s) = concat (map html_entity s)"
proof (induction s)
  case Nil
  show ?case by (simp add: replace_all_def)
next
  case (Cons a s)
  then show ?case by (simp only: escapeHtml_Cons list.map concat.simps)
qed

lemma html_entity_clean:
  "CHR ''<'' \<notin> set (html_entity c) \<and> CHR ''>'' \<notin> set (html_entity c)
   \<and> dquote \<notin> set (html_entity c) \<and> squote \<notin> set (html_entity c)"
  by (simp add: html_entity_def)

text \<open>
  Claim C10. For every input, the result of \<open>escapeHtml\<close> contains none of the raw
  characters \<open><\<close>, \<open>>\<close>, the double quote and the single quote; a string is rewritten
  character by character into entities (the ampersand being replaced first, the
  ampersands of the entities written afterwards are not escaped again); \<open>null\<close> and
  \<open>undefined\<close> give the empty string.
\<close>

theorem escapeHtml_neutralizes:
  "CHR ''<'' \<notin> set (escapeHtml x) \<and> CHR ''>'' \<notin> set (escapeHtml x)
   \<and> dquote \<notin> set (escapeHtml x) \<and> squote \<notin> set (escapeHtml x)
   \<and> escapeHtml (JString s) = concat (map html_entity s)
   \<and> escapeHtml JNull = [] \<and> escapeHtml JUndefined = []"
proof -
  have clean: "CHR ''<'' \<notin> set (escapeHtml x) \<and> CHR ''>'' \<notin> set (escapeHtml x)
      \<and> dquote \<notin> set (escapeHtml x) \<and> squote \<notin> set (escapeHtml x)"
  proof (cases x)
    case (JString t)
    have "\<And>c. c \<in> set t \<Longrightarrow> CHR ''<'' \<notin> set (html_entity c) \<and> CHR ''>'' \<notin> set (html_entity c)
        \<and> dquote \<notin> set (html_entity c) \<and> squote \<notin> set (html_entity c)"
      by (rule html_entity_clean)
    then show ?thesis
      unfolding JString escapeHtml_concat by auto
  qed simp_all
  show ?thesis
    using clean escapeHtml_concat [of s] by simp
qed

subsection \<open>The WHERE clause\<close>

lemma join_snoc: "cs \<noteq> [] \<Longrightarrow> join sep (cs @ [c]) = join sep cs @ sep @ c"
  by (induction sep cs rule: join.induct) auto

lemma sidebarConditions_eq:
  "sidebarConditions st =
     map (\<lambda>(column, v). condition column v)
       (map (\<lambda>(selectId, column). (column, selects st selectId))
         (filter (\<lambda>(selectId, column). selects st selectId \<noteq> []) filterConfig))"
proof -
  have "concat (map (\<lambda>(selectId, column).
                    let v = selects st selectId
                    in if v \<noteq> [] then [condition column v] else []) cfg)
      = map (\<lambda>(column, v). condition column v)
          (map (\<lambda>(selectId, column). (column, selects st selectId))
            (filter (\<lambda>(selectId, column). selects st selectId \<noteq> []) cfg))" for cfg
    by (induction cfg) (auto simp: Let_def)
  then show ?thesis
    unfolding sidebarConditions_def .
qed

lemma conditions_activeFilters:
  "conditions st = map (\<lambda>(column, v). condition column v) (activeFilters st)"
  by (simp add: conditions_def activeFilters_def chartConditions_def sidebarConditions_eq)

lemma activeFilters_Nil_iff:
  "activeFilters st = [] \<longleftrightarrow>
     (\<forall>(selectId, column) \<in> set filterConfig. selects st selectId = []) \<and> chartFilters st = []"
  by (auto simp: activeFilters_def filter_empty_conv)

lemma conditions_Nil_iff:
  "conditions st = [] \<longleftrightarrow>
     (\<forall>(selectId, column) \<in> set filterConfig. selects st selectId = []) \<and> chartFilters st = []"
  by (simp add: conditions_activeFilters activeFilters_Nil_iff)

lemma getWhereClause_Nil_iff: "getWhereClause st = [] \<longleftrightarrow> conditions st = []"
  by (simp add: getWhereClause_def)

text \<open>
  The shape of the clause, with the conditions as opaque strings: it is empty exactly
  when no sidebar select has a value and no chart filter is set; otherwise it is
  \<open>WHERE\<close> followed by one condition per active filter, joined by \<open>AND\<close>; the callers'
  ways of extending it give one \<open>WHERE\<close> followed by the conditions and the extra
  condition (with the query template, up to the line break that the template puts
  before the extra condition). Whether the result is a clause of SQL depends on what
  the conditions are.
\<close>

lemma getWhereClause_shape:
  "(getWhereClause st = [] \<longleftrightarrow>
      (\<forall>(selectId, column) \<in> set filterConfig. selects st selectId = []) \<and> chartFilters st = [])
   \<and> (getWhereClause st \<noteq> [] \<longrightarrow>
        getWhereClause st =
          ''WHERE '' @ join '' AND '' (map (\<lambda>(column, v). condition column v) (activeFilters st)))
   \<and> extendClause (getWhereClause st) extra = ''WHERE '' @ join '' AND '' (conditions st @ [extra])
   \<and> templateClause indent (getWhereClause st) extra =
        (if getWhereClause st = [] then indent @ ''WHERE '' @ extra
         else ''WHERE '' @ join '' AND '' (conditions st) @ indent @ ''AND '' @ extra)"
proof (intro conjI)
  show "getWhereClause st = [] \<longleftrightarrow>
      (\<forall>(selectId, column) \<in> set filterConfig. selects st selectId = []) \<and> chartFilters st = []"
    by (simp only: getWhereClause_Nil_iff conditions_Nil_iff)
  show "getWhereClause st \<noteq> [] \<longrightarrow>
        getWhereClause st =
          ''WHERE '' @ join '' AND '' (map (\<lambda>(column, v). condition column v) (activeFilters st))"
    by (simp add: getWhereClause_def conditions_activeFilters)
  show "extendClause (getWhereClause st) extra = ''WHERE '' @ join '' AND '' (conditions st @ [extra])"
  proof (cases "conditions st = []")
    case True
    then show ?thesis by (simp add: extendClause_def getWhereClause_def)
  next
    case False
    then show ?thesis by (simp add: extendClause_def getWhereClause_def join_snoc)
  qed
  show "templateClause indent (getWhereClause st) extra =
        (if getWhereClause st = [] then indent @ ''WHERE '' @ extra
         else ''WHERE '' @ join '' AND '' (conditions st) @ indent @ ''AND '' @ extra)"
    by (simp add: templateClause_def getWhereClause_def)
qed

subsection \<open>Literals and identifiers\<close>

lemma escapedValue_doubles:
  "escapedValue v = concat (map (\<lambda>c. if c = squote then [squote, squote] else [c]) v)
   \<and> count_list (escapedValue v) squote = 2 * count_list v squote"
  by (induction v) (auto simp: escapedValue_def replace_all_def)

lemma sidebar_columns_allowlisted:
  "(column, v) \<in> set (activeFilters (st\<lparr>chartFilters := []\<rparr>)) \<Longrightarrow> allowlisted column"
  by (force simp: activeFilters_def allowlisted_def)

text \<open>
  Claim C4, evaluated at the chart filters restored from the URL parameter
  \<^verbatim>\<open>cf={"1=1 OR role":"x"}\<close>: the key of the restored object is written into the clause
  as the column, although no configuration names it. The literal is escaped as the
  claim says (\<open>escapedValue_doubles\<close>), and the sidebar columns come from
  \<^verbatim>\<open>filterConfig\<close> (\<open>sidebar_columns_allowlisted\<close>).
\<close>

theorem restored_identifier_interpolated:
  "getWhereClause (restoreChartFilters [(''1=1 OR role'', ''x'')] no_filters)
     = ''WHERE 1=1 OR role = '' @ [squote] @ ''x'' @ [squote]
   \<and> \<not> allowlisted ''1=1 OR role''"
  by (simp add: getWhereClause_def conditions_def sidebarConditions_def chartConditions_def
      restoreChartFilters_def no_filters_def filterConfig_def condition_def escapedValue_def
      replace_all_def allowlisted_def chartColumns_def)

text \<open>
  Claim C3, evaluated at the chart filter restored from the URL parameter
  \<^verbatim>\<open>cf={"(":"x"}\<close>, with no sidebar filter chosen: the clause is \<^verbatim>\<open>WHERE ( = 'x'\<close>, and
  extended by a caller it is \<^verbatim>\<open>WHERE ( = 'x' AND region IS NOT NULL\<close>. The parenthesis
  is never closed, so neither text is a clause of SQL, while the claim promises for every
  filter state a clause that can be extended without invalid syntax.
\<close>

theorem restored_key_breaks_clause:
  "getWhereClause (restoreChartFilters [(''('', ''x'')] no_filters)
     = ''WHERE ( = '' @ [squote] @ ''x'' @ [squote]
   \<and> extendClause (getWhereClause (restoreChartFilters [(''('', ''x'')] no_filters))
        ''region IS NOT NULL''
     = ''WHERE ( = '' @ [squote] @ ''x'' @ [squote] @ '' AND region IS NOT NULL''
   \<and> templateClause '' '' (getWhereClause (restoreChartFilters [(''('', ''x'')] no_filters))
        ''region IS NOT NULL''
     = ''WHERE ( = '' @ [squote] @ ''x'' @ [squote] @ '' AND region IS NOT NULL''"
  by (simp add: getWhereClause_def conditions_def sidebarConditions_def chartConditions_def
      restoreChartFilters_def no_filters_def filterConfig_def condition_def escapedValue_def
      replace_all_def extendClause_def templateClause_def)

subsection \<open>Toggling a chart filter\<close>

text \<open>
  Claim C2 as stated fails when the dimension held another value: the first call
  replaces it, the second call deletes the entry, and the other value is not restored.
\<close>

theorem addChartFilter_twice_counterexample:
  "map_of (chartFilters (addChartFilter ''role'' ''Data Engineer''
            (addChartFilter ''role'' ''Data Engineer''
              (no_filters\<lparr>chartFilters := [(''role'', ''Analyst'')]\<rparr>)))) ''role''
     \<noteq> map_of (chartFilters (no_filters\<lparr>chartFilters := [(''role'', ''Analyst'')]\<rparr>)) ''role''"
  by (simp add: addChartFilter_def no_filters_def)

text \<open>
  Claim C2, amended. Two calls of \<open>addChartFilter d v\<close> in a row return the entry of
  \<open>d\<close> to its prior value when \<open>d\<close> was unfiltered or held \<open>v\<close>; when \<open>d\<close> held another
  value, \<open>d\<close> is unfiltered afterwards. The entries of the other dimensions and the
  selects are as before.
\<close>

theorem addChartFilter_twice:
  "map_of (chartFilters (addChartFilter d v (addChartFilter d v st))) d
     = (if map_of (chartFilters st) d = Some v then Some v else None)
   \<and> (d' \<noteq> d \<longrightarrow>
        map_of (chartFilters (addChartFilter d v (addChartFilter d v st))) d'
          = map_of (chartFilters st) d')
   \<and> selects (addChartFilter d v (addChartFilter d v st)) = selects st"
  by (simp add: addChartFilter_def AList.update_conv' AList.delete_conv')

theorem addChartFilter_twice_witness:
  "map_of (chartFilters (addChartFilter ''role'' ''Data Engineer''
            (addChartFilter ''role'' ''Data Engineer'' no_filters))) ''role'' = None
   \<and> map_of (chartFilters (addChartFilter ''role'' ''Data Engineer''
            (addChartFilter ''role'' ''Data Engineer''
              (no_filters\<lparr>chartFilters := [(''region'', ''Europe'')]\<rparr>)))) ''region''
       = Some ''Europe''"
  using addChartFilter_twice [of "''role''" "''Data Engineer''" no_filters "''region''"]
    addChartFilter_twice [of "''role''" "''Data Engineer''"
      "no_filters\<lparr>chartFilters := [(''region'', ''Europe'')]\<rparr>" "''region''"]
  by (simp add: no_filters_def)

subsection \<open>Maps as entry lists\<close>

lemma update_fresh: "k \<notin> fst ` set al \<Longrightarrow> AList.update k v al = al @ [(k, v)]"
  by (induction al) auto

lemma foldl_update_fresh:
  "distinct (map fst kvs) \<Longrightarrow> fst ` set kvs \<inter> fst ` set acc = {} \<Longrightarrow>
     foldl (\<lambda>m (k, v). AList.update k v m) acc kvs = acc @ kvs"
proof (induction kvs arbitrary: acc)
  case Nil
  show ?case by simp
next
  case (Cons kv kvs)
  obtain k v where kv: "kv = (k, v)" by (cases kv)
  from Cons.prems have fresh: "k \<notin> fst ` set acc" and d: "distinct (map fst kvs)"
    and k: "k \<notin> fst ` set kvs" and dis: "fst ` set kvs \<inter> fst ` set acc = {}"
    by (auto simp: kv)
  have "fst ` set kvs \<inter> fst ` set (acc @ [(k, v)]) = {}"
    using k dis by auto
  from Cons.IH [OF d this] show ?case
    by (simp add: kv update_fresh [OF fresh])
qed

lemma new_Map_distinct: "distinct (map fst kvs) \<Longrightarrow> new_Map kvs = kvs"
  using foldl_update_fresh [of kvs "[]"] by (simp add: new_Map_def)

lemma map_fst_group_count: "map fst (group_count xs) = remdups xs"
  by (simp add: group_count_def comp_def)

lemma distinct_group_count: "distinct (map fst (group_count xs))"
  by (simp add: map_fst_group_count)

lemma map_of_group_count:
  "map_of (group_count xs) k = (if k \<in> set xs then Some (count_list xs k) else None)"
proof -
  have "map_of (map (\<lambda>k. (k, count_list xs k)) ys) k
      = (if k \<in> set ys then Some (count_list xs k) else None)" for ys
    by (induction ys) auto
  from this [of "remdups xs"] show ?thesis
    by (simp add: group_count_def)
qed

lemma distinct_fst_sort_key:
  "distinct (map fst xs) \<Longrightarrow> distinct (map fst (sort_key f xs))"
  by (simp add: distinct_map)

lemma map_of_sort_key:
  assumes "distinct (map fst xs)"
  shows "map_of (sort_key f xs) = map_of xs"
proof (rule map_of_inject_set [THEN iffD2])
  show "distinct (map fst (sort_key f xs))" using assms by (rule distinct_fst_sort_key)
  show "distinct (map fst xs)" by (rule assms)
  show "set (sort_key f xs) = set xs" by simp
qed

lemma distinct_totals_query: "distinct (map fst (totals_query db fs column))"
  unfolding totals_query_def by (rule distinct_fst_sort_key) (rule distinct_group_count)

lemma total_of_totals_query:
  "total_of (totals_query db fs column) v = count_list (totals_occurrences db fs column) v"
  by (simp add: total_of_def totals_query_def map_of_sort_key distinct_group_count
      map_of_group_count count_list_0_iff)

lemma fst_set_group_count: "fst ` set (group_count xs) = set xs"
proof -
  have "set (map fst (group_count xs)) = set xs"
    by (simp only: map_fst_group_count set_remdups)
  then show ?thesis by simp
qed

lemma set_fst_totals_query:
  "set (map fst (totals_query db fs column)) = set (totals_occurrences db fs column)"
  by (simp add: totals_query_def fst_set_group_count)

lemma foldl_plus: "foldl (\<lambda>a b. a + b) (a::nat) xs = a + sum_list xs"
  by (induction xs arbitrary: a) auto

lemma sorted_desc_totals_query:
  "sorted (map (\<lambda>(v, total). - int total) (totals_query db fs column))"
  by (simp add: totals_query_def)


lemma sum_indicator:
  "distinct cs \<Longrightarrow> (\<Sum>c\<leftarrow>cs. if y = c then 1 else 0) = (if y \<in> set cs then 1 else (0::nat))"
  by (induction cs) auto

lemma sum_count_cover:
  "distinct cs \<Longrightarrow> set ys \<subseteq> set cs \<Longrightarrow> (\<Sum>c\<leftarrow>cs. count_list ys c) = length ys"
proof (induction ys)
  case Nil
  show ?case by simp
next
  case (Cons y ys)
  have "(\<Sum>c\<leftarrow>cs. count_list (y # ys) c)
      = (\<Sum>c\<leftarrow>cs. (if y = c then 1 else 0) + count_list ys c)"
    by (rule arg_cong [where f = sum_list]) auto
  also have "\<dots> = (\<Sum>c\<leftarrow>cs. if y = c then 1 else 0) + (\<Sum>c\<leftarrow>cs. count_list ys c)"
    by (rule sum_list_addf)
  also have "\<dots> = 1 + length ys"
    using Cons by (simp add: sum_indicator)
  finally show ?case by simp
qed

lemma count_list_pair:
  "count_list ps (r, c) = count_list (map snd (filter (\<lambda>p. fst p = r) ps)) c"
  by (induction ps) auto

lemma matrix_keyed:
  assumes "distinct (map (\<lambda>(r, c, n). cell_key r c) data)"
  shows "foldl (\<lambda>m (row_val, col_val, n). AList.update (cell_key row_val col_val) n m) [] data
       = map (\<lambda>(r, c, n). (cell_key r c, n)) data"
proof -
  have eq: "foldl (\<lambda>m (row_val, col_val, n). AList.update (cell_key row_val col_val) n m) acc data
      = foldl (\<lambda>m (k, v). AList.update k v m) acc (map (\<lambda>(r, c, n). (cell_key r c, n)) data)" for acc
    by (induction data arbitrary: acc) auto
  have "distinct (map fst (map (\<lambda>(r, c, n). (cell_key r c, n)) data))"
    using assms by (simp add: comp_def case_prod_unfold)
  from foldl_update_fresh [OF this, of "[]"] show ?thesis
    by (simp add: eq)
qed


subsection \<open>The cells of an assembled crosstab\<close>

lemma no_key_collision_inj:
  "no_key_collision rs cs \<Longrightarrow> inj_on (\<lambda>(r, c). cell_key r c) (set rs \<times> set cs)"
  by (simp add: no_key_collision_def distinct_map)

text \<open>
  Keys cannot collide when no row value contains the character of the separator.
\<close>

lemma cell_key_inject:
  "CHR ''|'' \<notin> set r1 \<Longrightarrow> CHR ''|'' \<notin> set r2 \<Longrightarrow> cell_key r1 c1 = cell_key r2 c2
     \<Longrightarrow> r1 = r2 \<and> c1 = c2"
proof (induction r1 arbitrary: r2)
  case Nil
  then show ?case by (cases r2) (simp_all add: cell_key_def)
next
  case (Cons a r1)
  show ?case
  proof (cases r2)
    case Nil
    with Cons.prems show ?thesis by (simp add: cell_key_def)
  next
    case (Cons b r2')
    from Cons.prems have "a = b" and "cell_key r1 c1 = cell_key r2' c2"
      and "CHR ''|'' \<notin> set r1" and "CHR ''|'' \<notin> set r2'"
      by (simp_all add: Cons cell_key_def)
    with Cons.IH [of r2'] show ?thesis by (simp add: Cons)
  qed
qed

lemma separator_free_no_collision:
  assumes "distinct rs" "distinct cs" and free: "\<forall>r \<in> set rs. CHR ''|'' \<notin> set r"
  shows "no_key_collision rs cs"
  unfolding no_key_collision_def
proof (subst distinct_map, intro conjI)
  show "distinct (List.product rs cs)"
    using assms(1,2) by (rule distinct_product)
  show "inj_on (\<lambda>(r, c). cell_key r c) (set (List.product rs cs))"
  proof (rule inj_onI)
    fix p q
    assume p: "p \<in> set (List.product rs cs)" and q: "q \<in> set (List.product rs cs)"
      and eq: "(case p of (r, c) \<Rightarrow> cell_key r c) = (case q of (r, c) \<Rightarrow> cell_key r c)"
    obtain r1 c1 r2 c2 where pq: "p = (r1, c1)" "q = (r2, c2)"
      by (cases p, cases q)
    from p q free have "CHR ''|'' \<notin> set r1" "CHR ''|'' \<notin> set r2"
      by (auto simp: pq)
    moreover from eq have "cell_key r1 c1 = cell_key r2 c2"
      by (simp add: pq)
    ultimately have "r1 = r2 \<and> c1 = c2"
      by (rule cell_key_inject)
    then show "p = q" by (simp add: pq)
  qed
qed

lemma dim_tokens_single:
  "\<not> isMultiSelect column \<Longrightarrow> dim_tokens column r = (case r column of None \<Rightarrow> [] | Some v \<Rightarrow> [v])"
  by (simp add: dim_tokens_def split: option.splits)

lemma detail_in_totals:
  assumes "(rv, cv) \<in> set (detail_occurrences db fs rc cc)"
  shows "rv \<in> set (totals_occurrences db fs rc) \<and> cv \<in> set (totals_occurrences db fs cc)"
  using assms by (auto simp: detail_occurrences_def totals_occurrences_def)

lemma map_of_keyed:
  "inj_on K A \<Longrightarrow> fst ` set G \<subseteq> A \<Longrightarrow> p \<in> A \<Longrightarrow>
     map_of (map (\<lambda>(q, n). (K q, n)) G) (K p) = map_of G p"
proof (induction G)
  case Nil
  show ?case by simp
next
  case (Cons g G)
  obtain q n where g: "g = (q, n)" by (cases g)
  from Cons.prems have q: "q \<in> A" and sub: "fst ` set G \<subseteq> A"
    by (simp_all add: g)
  have key: "K q = K p \<longleftrightarrow> q = p"
    using inj_onD [OF Cons.prems(1) _ q Cons.prems(3)] by blast
  have IH: "map_of (map (\<lambda>(q, n). (K q, n)) G) (K p) = map_of G p"
    using Cons.prems(1) sub Cons.prems(3) by (rule Cons.IH)
  show ?case
    unfolding g using key IH by (cases "q = p") simp_all
qed

lemma set_detail_pairs:
  "fst ` set (sort_key fst (group_count D)) = set D"
  by (simp add: fst_set_group_count)

lemma detail_query_keys:
  "map (\<lambda>(r, c, n). (cell_key r c, n)) (detail_query db fs rc cc)
     = map (\<lambda>(q, n). ((\<lambda>(r, c). cell_key r c) q, n))
         (sort_key fst (group_count (detail_occurrences db fs rc cc)))"
  by (simp add: detail_query_def comp_def case_prod_unfold)

lemma matrix_assemble:
  "matrix (assemble rc cc m data rt ct)
     = foldl (\<lambda>m (row_val, col_val, n). AList.update (cell_key row_val col_val) n m) [] data"
  by (simp add: assemble_def Let_def)

lemma fields_assemble:
  "rows (assemble rc cc m data rt ct) = map fst (new_Map rt)
   \<and> cols (assemble rc cc m data rt ct) = map fst (new_Map ct)
   \<and> rowTotals (assemble rc cc m data rt ct) = new_Map rt
   \<and> colTotals (assemble rc cc m data rt ct) = new_Map ct
   \<and> grandTotal (assemble rc cc m data rt ct) = sum_list (map snd (new_Map rt))
   \<and> rowCol (assemble rc cc m data rt ct) = rc
   \<and> colCol (assemble rc cc m data rt ct) = cc
   \<and> metric (assemble rc cc m data rt ct) = m"
  by (simp add: assemble_def Let_def foldl_plus)

lemma cell_count_engine:
  assumes inj: "inj_on (\<lambda>(r, c). cell_key r c) A"
    and sub: "set (detail_occurrences db fs rc cc) \<subseteq> A"
    and p: "(r, c) \<in> A"
  shows "cell_count (assemble rc cc m (detail_query db fs rc cc) rt ct) r c
       = count_list (detail_occurrences db fs rc cc) (r, c)"
proof -
  let ?D = "detail_occurrences db fs rc cc"
  let ?G = "sort_key fst (group_count ?D)"
  let ?K = "\<lambda>(r, c). cell_key r c"
  have dG: "distinct (map fst ?G)"
    by (rule distinct_fst_sort_key) (rule distinct_group_count)
  have fG: "fst ` set ?G = set ?D" by (rule set_detail_pairs)
  have "map (\<lambda>(r, c, n). cell_key r c) (detail_query db fs rc cc) = map ?K (map fst ?G)"
    by (simp add: detail_query_def comp_def case_prod_unfold)
  moreover have "distinct (map ?K (map fst ?G))"
  proof (subst distinct_map, intro conjI)
    show "distinct (map fst ?G)" by (rule dG)
    have "set (map fst ?G) \<subseteq> A" using fG sub by simp
    then show "inj_on ?K (set (map fst ?G))" by (rule inj_on_subset [OF inj])
  qed
  ultimately have "distinct (map (\<lambda>(r, c, n). cell_key r c) (detail_query db fs rc cc))"
    by simp
  then have mat: "matrix (assemble rc cc m (detail_query db fs rc cc) rt ct)
      = map (\<lambda>(q, n). (?K q, n)) ?G"
    by (simp only: matrix_assemble matrix_keyed detail_query_keys)
  have "map_of (map (\<lambda>(q, n). (?K q, n)) ?G) (?K (r, c)) = map_of ?G (r, c)"
    using inj _ p by (rule map_of_keyed) (use fG sub in simp)
  then have "map_of (map (\<lambda>(q, n). (?K q, n)) ?G) (cell_key r c) = map_of (group_count ?D) (r, c)"
    by (simp add: map_of_sort_key distinct_group_count)
  then show ?thesis
    by (simp add: cell_count_def mat map_of_group_count count_list_0_iff)
qed


lemma detail_occurrences_single:
  assumes "\<not> isMultiSelect rc" "\<not> isMultiSelect cc"
  shows "detail_occurrences db fs rc cc
       = map (\<lambda>x. (the (x rc), the (x cc)))
           (filter (\<lambda>x. satisfies fs x \<and> x rc \<noteq> None \<and> x cc \<noteq> None) db)"
  unfolding detail_occurrences_def
  by (induction db) (auto simp: dim_tokens_single [OF assms(1)] dim_tokens_single [OF assms(2)])

lemma totals_occurrences_single:
  assumes "\<not> isMultiSelect c"
  shows "totals_occurrences db fs c
       = map (\<lambda>x. the (x c)) (filter (\<lambda>x. satisfies fs x \<and> x c \<noteq> None) db)"
  unfolding totals_occurrences_def
  by (induction db) (auto simp: dim_tokens_single [OF assms])

lemma count_list_pair_snd:
  "count_list ps (r, c) = count_list (map fst (filter (\<lambda>p. snd p = c) ps)) r"
  by (induction ps) auto

lemma length_filter_split:
  "length (filter (\<lambda>x. P x \<and> Q x) xs) + length (filter (\<lambda>x. P x \<and> \<not> Q x) xs)
     = length (filter P xs)"
  by (induction xs) auto

lemma rows_cols_engine:
  "rows (assemble rc cc m data (totals_query db fs rc) (totals_query db fs cc))
     = map fst (totals_query db fs rc)
   \<and> cols (assemble rc cc m data (totals_query db fs rc) (totals_query db fs cc))
     = map fst (totals_query db fs cc)
   \<and> rowTotals (assemble rc cc m data (totals_query db fs rc) (totals_query db fs cc))
     = totals_query db fs rc
   \<and> colTotals (assemble rc cc m data (totals_query db fs rc) (totals_query db fs cc))
     = totals_query db fs cc"
  by (simp add: fields_assemble new_Map_distinct distinct_totals_query)

lemma cell_count_in_table:
  assumes cd: "cd = assemble rc cc m (detail_query db fs rc cc)
                      (totals_query db fs rc) (totals_query db fs cc)"
    and nc: "no_key_collision (rows cd) (cols cd)"
    and r: "r \<in> set (rows cd)" and c: "c \<in> set (cols cd)"
  shows "cell_count cd r c = count_list (detail_occurrences db fs rc cc) (r, c)"
proof -
  let ?A = "set (rows cd) \<times> set (cols cd)"
  have inj: "inj_on (\<lambda>(r, c). cell_key r c) ?A"
    using nc by (rule no_key_collision_inj)
  have rows_eq: "set (rows cd) = set (totals_occurrences db fs rc)"
    and cols_eq: "set (cols cd) = set (totals_occurrences db fs cc)"
    unfolding cd by (simp_all only: rows_cols_engine set_fst_totals_query)
  have sub: "set (detail_occurrences db fs rc cc) \<subseteq> ?A"
    using detail_in_totals [of _ _ db fs rc cc] unfolding rows_eq cols_eq by auto
  have p: "(r, c) \<in> ?A" using r c by simp
  show ?thesis
    unfolding cd by (rule cell_count_engine [OF inj sub p])
qed


subsection \<open>Marginal totals\<close>

lemma row_sum:
  assumes nm: "\<not> isMultiSelect rc" "\<not> isMultiSelect cc"
    and cd: "cd = assemble rc cc m (detail_query db fs rc cc)
                      (totals_query db fs rc) (totals_query db fs cc)"
    and nc: "no_key_collision (rows cd) (cols cd)"
    and r: "r \<in> set (rows cd)"
  shows "(\<Sum>c\<leftarrow>cols cd. cell_count cd r c)
           + length (filter (\<lambda>x. satisfies fs x \<and> x rc = Some r \<and> x cc = None) db)
         = total_of (rowTotals cd) r"
proof -
  let ?D = "detail_occurrences db fs rc cc"
  let ?ys = "map snd (filter (\<lambda>p. fst p = r) ?D)"
  have cols_eq: "cols cd = map fst (totals_query db fs cc)"
    and tot_eq: "rowTotals cd = totals_query db fs rc"
    unfolding cd by (simp_all only: rows_cols_engine)
  have dcols: "distinct (cols cd)"
    unfolding cols_eq by (rule distinct_totals_query)
  have cover: "set ?ys \<subseteq> set (cols cd)"
    unfolding cols_eq set_fst_totals_query using detail_in_totals [of _ _ db fs rc cc] by auto
  have "(\<Sum>c\<leftarrow>cols cd. cell_count cd r c) = (\<Sum>c\<leftarrow>cols cd. count_list ?ys c)"
  proof (rule arg_cong [where f = sum_list], rule map_cong [OF refl])
    fix c assume "c \<in> set (cols cd)"
    then have "cell_count cd r c = count_list ?D (r, c)"
      using cd nc r by (intro cell_count_in_table)
    then show "cell_count cd r c = count_list ?ys c"
      by (simp only: count_list_pair)
  qed
  also have "\<dots> = length ?ys"
    using dcols cover by (rule sum_count_cover)
  also have "\<dots> = length (filter (\<lambda>x. (satisfies fs x \<and> x rc = Some r) \<and> x cc \<noteq> None) db)"
    unfolding detail_occurrences_single [OF nm]
    by (simp add: filter_map comp_def) (rule arg_cong [where f = length], rule filter_cong, auto)
  finally have cells: "(\<Sum>c\<leftarrow>cols cd. cell_count cd r c)
      = length (filter (\<lambda>x. (satisfies fs x \<and> x rc = Some r) \<and> x cc \<noteq> None) db)" .
  have "total_of (rowTotals cd) r = count_list (totals_occurrences db fs rc) r"
    unfolding tot_eq by (rule total_of_totals_query)
  also have "\<dots> = length (filter (\<lambda>x. satisfies fs x \<and> x rc = Some r) db)"
    unfolding totals_occurrences_single [OF nm(1)] count_list_eq_length_filter
    by (simp add: filter_map comp_def) (rule arg_cong [where f = length], rule filter_cong, auto)
  finally have tot: "total_of (rowTotals cd) r
      = length (filter (\<lambda>x. satisfies fs x \<and> x rc = Some r) db)" .
  have "length (filter (\<lambda>x. (satisfies fs x \<and> x rc = Some r) \<and> x cc \<noteq> None) db)
      + length (filter (\<lambda>x. (satisfies fs x \<and> x rc = Some r) \<and> \<not> x cc \<noteq> None) db)
      = length (filter (\<lambda>x. satisfies fs x \<and> x rc = Some r) db)"
    by (rule length_filter_split)
  then show ?thesis
    unfolding cells tot by simp
qed

lemma col_sum:
  assumes nm: "\<not> isMultiSelect rc" "\<not> isMultiSelect cc"
    and cd: "cd = assemble rc cc m (detail_query db fs rc cc)
                      (totals_query db fs rc) (totals_query db fs cc)"
    and nc: "no_key_collision (rows cd) (cols cd)"
    and c: "c \<in> set (cols cd)"
  shows "(\<Sum>r\<leftarrow>rows cd. cell_count cd r c)
           + length (filter (\<lambda>x. satisfies fs x \<and> x cc = Some c \<and> x rc = None) db)
         = total_of (colTotals cd) c"
proof -
  let ?D = "detail_occurrences db fs rc cc"
  let ?ys = "map fst (filter (\<lambda>p. snd p = c) ?D)"
  have rows_eq: "rows cd = map fst (totals_query db fs rc)"
    and tot_eq: "colTotals cd = totals_query db fs cc"
    unfolding cd by (simp_all only: rows_cols_engine)
  have drows: "distinct (rows cd)"
    unfolding rows_eq by (rule distinct_totals_query)
  have cover: "set ?ys \<subseteq> set (rows cd)"
    unfolding rows_eq set_fst_totals_query using detail_in_totals [of _ _ db fs rc cc] by auto
  have "(\<Sum>r\<leftarrow>rows cd. cell_count cd r c) = (\<Sum>r\<leftarrow>rows cd. count_list ?ys r)"
  proof (rule arg_cong [where f = sum_list], rule map_cong [OF refl])
    fix r assume "r \<in> set (rows cd)"
    then have "cell_count cd r c = count_list ?D (r, c)"
      using cd nc c by (intro cell_count_in_table)
    then show "cell_count cd r c = count_list ?ys r"
      by (simp only: count_list_pair_snd)
  qed
  also have "\<dots> = length ?ys"
    using drows cover by (rule sum_count_cover)
  also have "\<dots> = length (filter (\<lambda>x. (satisfies fs x \<and> x cc = Some c) \<and> x rc \<noteq> None) db)"
    unfolding detail_occurrences_single [OF nm]
    by (simp add: filter_map comp_def) (rule arg_cong [where f = length], rule filter_cong, auto)
  finally have cells: "(\<Sum>r\<leftarrow>rows cd. cell_count cd r c)
      = length (filter (\<lambda>x. (satisfies fs x \<and> x cc = Some c) \<and> x rc \<noteq> None) db)" .
  have "total_of (colTotals cd) c = count_list (totals_occurrences db fs cc) c"
    unfolding tot_eq by (rule total_of_totals_query)
  also have "\<dots> = length (filter (\<lambda>x. satisfies fs x \<and> x cc = Some c) db)"
    unfolding totals_occurrences_single [OF nm(2)] count_list_eq_length_filter
    by (simp add: filter_map comp_def) (rule arg_cong [where f = length], rule filter_cong, auto)
  finally have tot: "total_of (colTotals cd) c
      = length (filter (\<lambda>x. satisfies fs x \<and> x cc = Some c) db)" .
  have "length (filter (\<lambda>x. (satisfies fs x \<and> x cc = Some c) \<and> x rc \<noteq> None) db)
      + length (filter (\<lambda>x. (satisfies fs x \<and> x cc = Some c) \<and> \<not> x rc \<noteq> None) db)
      = length (filter (\<lambda>x. satisfies fs x \<and> x cc = Some c) db)"
    by (rule length_filter_split)
  then show ?thesis
    unfolding cells tot by simp
qed

text \<open>
  Claim C1, amended. For a crosstab of two dimensions that are not multi-select, under
  any filters, whose cell keys do not collide: for every row value, the sum of the cell
  counts across all columns plus the number of filtered responses that have this row
  value and \<^verbatim>\<open>NULL\<close> in the column dimension equals the row total; and for every
  column value, the sum of the cell counts down the column plus the number of filtered
  responses that have this column value and \<^verbatim>\<open>NULL\<close> in the row dimension equals the
  column total. So the sums equal the totals exactly when no filtered response has a
  value for one pivot dimension and \<^verbatim>\<open>NULL\<close> for the other.
\<close>

theorem crosstab_marginals:
  assumes nm: "\<not> isMultiSelect rc" "\<not> isMultiSelect cc"
    and cd: "cd = crosstab_of db fs rc cc m"
    and nc: "no_key_collision (rows cd) (cols cd)"
  shows "(\<forall>r \<in> set (rows cd).
            (\<Sum>c\<leftarrow>cols cd. cell_count cd r c)
              + length (filter (\<lambda>x. satisfies fs x \<and> x rc = Some r \<and> x cc = None) db)
            = total_of (rowTotals cd) r)
       \<and> (\<forall>c \<in> set (cols cd).
            (\<Sum>r\<leftarrow>rows cd. cell_count cd r c)
              + length (filter (\<lambda>x. satisfies fs x \<and> x cc = Some c \<and> x rc = None) db)
            = total_of (colTotals cd) c)"
  using row_sum [OF nm cd [unfolded crosstab_of_def] nc]
    col_sum [OF nm cd [unfolded crosstab_of_def] nc]
  by blast

text \<open>
  Claim C1 as stated fails when a response has a value for one pivot dimension and
  \<^verbatim>\<open>NULL\<close> for the other: the marginal query counts it (its condition is only that
  its own dimension is not \<^verbatim>\<open>NULL\<close>), the detail query does not. In
  \<open>survey_with_null\<close> the cells of row \<open>Analyst\<close> sum to 1 and its row total is 2.
\<close>

theorem crosstab_marginals_counterexample:
  "(\<Sum>c\<leftarrow>cols (crosstab_of survey_with_null [] ''role'' ''region'' ''count'').
      cell_count (crosstab_of survey_with_null [] ''role'' ''region'' ''count'') ''Analyst'' c)
   \<noteq> total_of (rowTotals (crosstab_of survey_with_null [] ''role'' ''region'' ''count'')) ''Analyst''"
  by code_simp





theorem crosstab_marginals_witness:
  "(\<Sum>c\<leftarrow>cols (crosstab_of survey_with_null [] ''role'' ''region'' ''count'').
      cell_count (crosstab_of survey_with_null [] ''role'' ''region'' ''count'') ''Analyst'' c) = 1
   \<and> total_of (rowTotals (crosstab_of survey_with_null [] ''role'' ''region'' ''count'')) ''Analyst'' = 2"
proof -
  let ?cd = "crosstab_of survey_with_null [] ''role'' ''region'' ''count''"
  have nm: "\<not> isMultiSelect ''role''" "\<not> isMultiSelect ''region''"
    by (simp_all add: isMultiSelect_def MULTI_SELECT_COLUMNS_def)
  have nc: "no_key_collision (rows ?cd) (cols ?cd)"
    by code_simp
  have r: "''Analyst'' \<in> set (rows ?cd)"
    by code_simp
  have nulls: "length (filter (\<lambda>x. satisfies [] x \<and> x ''role'' = Some ''Analyst'' \<and> x ''region'' = None)
                  survey_with_null) = 1"
    by (simp add: survey_with_null_def satisfies_def)
  have tot: "total_of (rowTotals ?cd) ''Analyst'' = 2"
    by code_simp
  from crosstab_marginals [OF nm refl nc] r
  have "(\<Sum>c\<leftarrow>cols ?cd. cell_count ?cd ''Analyst'' c)
          + length (filter (\<lambda>x. satisfies [] x \<and> x ''role'' = Some ''Analyst'' \<and> x ''region'' = None)
                  survey_with_null)
        = total_of (rowTotals ?cd) ''Analyst''"
    by blast
  then show ?thesis
    unfolding nulls tot by simp
qed

lemma keys_foldl_update:
  "fst ` set (foldl (\<lambda>m (row_val, col_val, n). AList.update (cell_key row_val col_val) n m) acc data)
     = fst ` set acc \<union> (\<lambda>(r, c, n). cell_key r c) ` set data"
proof (induction data arbitrary: acc)
  case Nil
  show ?case by simp
next
  case (Cons d data)
  obtain r c n where d: "d = (r, c, n)" by (cases d)
  have "fst ` set (foldl (\<lambda>m (row_val, col_val, n). AList.update (cell_key row_val col_val) n m)
                    (AList.update (cell_key r c) n acc) data)
      = fst ` set (AList.update (cell_key r c) n acc) \<union> (\<lambda>(r, c, n). cell_key r c) ` set data"
    by (rule Cons.IH)
  then show ?case
    by (simp add: d AList.dom_update)
qed

lemma cell_count_absent:
  assumes "cell_key r c \<notin> (\<lambda>(r, c, n). cell_key r c) ` set data"
  shows "cell_count (assemble rc cc m data rt ct) r c = 0"
proof -
  have "cell_key r c \<notin> fst ` set (matrix (assemble rc cc m data rt ct))"
    using assms by (simp only: matrix_assemble keys_foldl_update) simp
  then have "map_of (matrix (assemble rc cc m data rt ct)) (cell_key r c) = None"
    by (simp add: map_of_eq_None_iff)
  then show ?thesis
    by (simp add: cell_count_def)
qed

lemma detail_query_pairs:
  "(\<lambda>(r, c, n). (r, c)) ` set (detail_query db fs rc cc) = set (detail_occurrences db fs rc cc)"
proof -
  have "(\<lambda>(r, c, n). (r, c)) ` set (detail_query db fs rc cc)
      = fst ` set (sort_key fst (group_count (detail_occurrences db fs rc cc)))"
    by (simp add: detail_query_def image_image case_prod_unfold)
  then show ?thesis
    by (simp only: set_detail_pairs)
qed

lemma total_of_keys:
  "distinct (map fst T) \<Longrightarrow> map (total_of T) (map fst T) = map snd T"
  by (induction T) (auto simp: total_of_def image_iff split: option.splits)

lemma totals_descending:
  "sorted_wrt (\<lambda>a b. a \<ge> b) (map snd (totals_query db fs column))"
proof -
  have "sorted (map (\<lambda>(v, total). - int total) (totals_query db fs column))"
    by (rule sorted_desc_totals_query)
  then show ?thesis
    by (simp add: sorted_wrt_map case_prod_unfold)
qed

lemma rowData_rows: "map row (rowData cd) = rows cd"
  by (simp add: rowData_def comp_def)

lemma rowData_totals: "map total (rowData cd) = map (total_of (rowTotals cd)) (rows cd)"
  by (simp add: rowData_def comp_def)

lemma default_order:
  assumes "sorted_wrt (\<lambda>a b. a \<ge> b) (map (total_of (rowTotals cd)) (rows cd))"
  shows "sortRows (Some ''_total'') Desc (rowData cd) = rowData cd"
proof -
  have "sorted_wrt (\<lambda>a b. a \<ge> b) (map total (rowData cd))"
    using assms by (simp only: rowData_totals)
  then have "sorted (map (\<lambda>rd. - (of_nat (total rd) :: rat)) (rowData cd))"
    by (simp add: sorted_wrt_map)
  then have "sort_key (\<lambda>rd. - (of_nat (total rd) :: rat)) (rowData cd) = rowData cd"
    by (rule sort_key_id_if_sorted)
  then show ?thesis
    by (simp add: sortRows_def sort_value_def)
qed

subsection \<open>Assembly of the matrix\<close>

text \<open>
  What holds of every assembled crosstab: the row values and the column values are
  exactly the keys of the respective marginal-total result, in the order of that
  result, which is descending by total; they are the values present under the filters.
  The table rendered with the default sort has its rows in this order and its columns
  always. A pair of a row value and a column value whose key \<open>row|||col\<close> is not the
  key of a detail row has cell count 0; when the cell keys of the table do not collide,
  this is every pair of the table absent from the detail result. The grand total is the
  sum of the row totals of the marginal result.
\<close>

lemma assembly_facts:
  assumes cd: "cd = crosstab_of db fs rc cc m"
  shows "rows cd = map fst (totals_query db fs rc)
       \<and> cols cd = map fst (totals_query db fs cc)
       \<and> set (rows cd) = set (totals_occurrences db fs rc)
       \<and> set (cols cd) = set (totals_occurrences db fs cc)
       \<and> sorted_wrt (\<lambda>a b. a \<ge> b) (map (total_of (rowTotals cd)) (rows cd))
       \<and> sorted_wrt (\<lambda>a b. a \<ge> b) (map (total_of (colTotals cd)) (cols cd))
       \<and> map row_header (body (tableView (Some ''_total'') Desc cd)) = rows cd
       \<and> map fst (col_headers (tableView sortCol dir cd)) = cols cd
       \<and> (cell_key r c \<notin> (\<lambda>(r, c, n). cell_key r c) ` set (detail_query db fs rc cc)
            \<longrightarrow> cell_count cd r c = 0)
       \<and> (no_key_collision (rows cd) (cols cd) \<and> r \<in> set (rows cd) \<and> c \<in> set (cols cd)
            \<and> (r, c) \<notin> (\<lambda>(r, c, n). (r, c)) ` set (detail_query db fs rc cc)
            \<longrightarrow> cell_count cd r c = 0)
       \<and> grandTotal cd = sum_list (map snd (totals_query db fs rc))"
proof -
  note cd' = cd [unfolded crosstab_of_def]
  have rows_eq: "rows cd = map fst (totals_query db fs rc)"
    and cols_eq: "cols cd = map fst (totals_query db fs cc)"
    and rt: "rowTotals cd = totals_query db fs rc"
    and ct: "colTotals cd = totals_query db fs cc"
    unfolding cd' by (simp_all only: rows_cols_engine)
  have set_rows: "set (rows cd) = set (totals_occurrences db fs rc)"
    and set_cols: "set (cols cd) = set (totals_occurrences db fs cc)"
    unfolding rows_eq cols_eq by (simp_all only: set_fst_totals_query)
  have desc_r: "sorted_wrt (\<lambda>a b. a \<ge> b) (map (total_of (rowTotals cd)) (rows cd))"
    unfolding rows_eq rt
    by (simp only: total_of_keys [OF distinct_totals_query] totals_descending)
  have desc_c: "sorted_wrt (\<lambda>a b. a \<ge> b) (map (total_of (colTotals cd)) (cols cd))"
    unfolding cols_eq ct
    by (simp only: total_of_keys [OF distinct_totals_query] totals_descending)
  have order: "map row_header (body (tableView (Some ''_total'') Desc cd)) = rows cd"
    by (simp add: tableView_def Let_def comp_def default_order [OF desc_r] rowData_rows)
  have heads: "map fst (col_headers (tableView sortCol dir cd)) = cols cd"
    by (simp add: tableView_def Let_def comp_def)
  have zero: "cell_key r c \<notin> (\<lambda>(r, c, n). cell_key r c) ` set (detail_query db fs rc cc)
      \<longrightarrow> cell_count cd r c = 0"
    unfolding cd' by (intro impI cell_count_absent)
  have zero': "no_key_collision (rows cd) (cols cd) \<and> r \<in> set (rows cd) \<and> c \<in> set (cols cd)
      \<and> (r, c) \<notin> (\<lambda>(r, c, n). (r, c)) ` set (detail_query db fs rc cc)
      \<longrightarrow> cell_count cd r c = 0"
  proof (intro impI, elim conjE)
    assume nc: "no_key_collision (rows cd) (cols cd)" and r: "r \<in> set (rows cd)"
      and c: "c \<in> set (cols cd)"
      and absent: "(r, c) \<notin> (\<lambda>(r, c, n). (r, c)) ` set (detail_query db fs rc cc)"
    have "cell_count cd r c = count_list (detail_occurrences db fs rc cc) (r, c)"
      using cd' nc r c by (rule cell_count_in_table)
    also have "\<dots> = 0"
      using absent by (simp add: detail_query_pairs count_list_0_iff)
    finally show "cell_count cd r c = 0" .
  qed
  have grand: "grandTotal cd = sum_list (map snd (totals_query db fs rc))"
    unfolding cd' by (simp add: fields_assemble new_Map_distinct distinct_totals_query)
  show ?thesis
    using rows_eq cols_eq set_rows set_cols desc_r desc_c order heads zero zero' grand
    by (intro conjI)
qed

text \<open>
  Claim C6, evaluated at \<open>survey_colliding\<close>, pivot of role by region without filters:
  the detail result has the three pairs (\<open>a\<close>, \<open>d\<close>), (\<open>a|||b\<close>, \<open>c\<close>) and
  (\<open>e\<close>, \<open>b|||c\<close>); the row value \<open>a\<close> and the column value \<open>b|||c\<close> are in the
  table and their pair is absent from the detail result, yet the cell has count 1
  where the claim gives 0: the count is read under the key \<open>a|||b|||c\<close>, which is also
  the key of the pair (\<open>a|||b\<close>, \<open>c\<close>).
\<close>

theorem colliding_key_cell:
  "detail_query survey_colliding [] ''role'' ''region''
     = [(''a'', ''d'', 1), (''a|||b'', ''c'', 1), (''e'', ''b|||c'', 1)]
   \<and> rows (crosstab_of survey_colliding [] ''role'' ''region'' ''count'') = [''a|||b'', ''a'', ''e'']
   \<and> cols (crosstab_of survey_colliding [] ''role'' ''region'' ''count'') = [''c'', ''d'', ''b|||c'']
   \<and> cell_count (crosstab_of survey_colliding [] ''role'' ''region'' ''count'') ''a'' ''b|||c'' = 1"
  by code_simp

subsection \<open>Rendering and the click handler\<close>



subsection \<open>Sort state\<close>



subsection \<open>Invalid pivot\<close>

text \<open>
  Claim C8. When the row dimension equals the column dimension, \<open>updateCrosstab\<close>
  writes the placeholder that asks for different dimensions into the crosstab
  container and returns: it sends no query, leaves no invocation pending, raises
  nothing, and changes nothing of the page but the container.
\<close>

theorem invalid_pivot:
  assumes "selects st ''crosstab-rows'' = selects st ''crosstab-cols''"
  shows "updateCrosstab_begin st = (st\<lparr>crosstab_results := SelectDifferentDimensions\<rparr>, None)
    \<and> updateCrosstab db st = st\<lparr>crosstab_results := SelectDifferentDimensions\<rparr>
    \<and> issued (updateCrosstab db st) = issued st
    \<and> step db \<lparr>the_page = st, tasks = ts\<rparr> Invoke
        = \<lparr>the_page = st\<lparr>crosstab_results := SelectDifferentDimensions\<rparr>, tasks = ts\<rparr>"
  using assms by (simp add: updateCrosstab_begin_def updateCrosstab_def)

theorem invalid_pivot_witness:
  "updateCrosstab survey_with_null (initial_page (\<lambda>ident. ''role''))
     = (initial_page (\<lambda>ident. ''role''))\<lparr>crosstab_results := SelectDifferentDimensions\<rparr>
   \<and> issued (updateCrosstab survey_with_null (initial_page (\<lambda>ident. ''role''))) = []"
proof -
  have same: "selects (initial_page (\<lambda>ident. ''role'')) ''crosstab-rows''
      = selects (initial_page (\<lambda>ident. ''role'')) ''crosstab-cols''"
    by (simp add: initial_page_def)
  show ?thesis
    using invalid_pivot [OF same, of survey_with_null] by (simp add: initial_page_def)
qed


subsection \<open>Binary64 rounding\<close>




lemma pow2_powi: "pow2 k = 2 powi k"
  by (simp add: pow2_def power_int_def power_one_over)



lemma round_half_even_ge: "of_int m \<le> r \<Longrightarrow> m \<le> round_half_even r"
proof -
  assume "of_int m \<le> r"
  then have "m \<le> \<lfloor>r\<rfloor>" by (simp add: le_floor_iff)
  moreover have "\<lfloor>r\<rfloor> \<le> round_half_even r"
    by (simp add: round_half_even_def Let_def)
  ultimately show ?thesis by simp
qed





lemma round64_pos:
  "0 < x \<Longrightarrow>
     round64 x = of_int (round_half_even (x / 2 powi (max (binade x) (- 1022) - 52)))
                   * 2 powi (max (binade x) (- 1022) - 52)"
  by (simp add: round64_def Let_def pow2_powi)

lemma round64_0: "round64 0 = 0"
  by (simp add: round64_def)

lemma round64_nonneg: "0 \<le> x \<Longrightarrow> 0 \<le> round64 x"
proof (cases "x = 0")
  case True
  then show ?thesis by (simp add: round64_0)
next
  case False
  assume "0 \<le> x"
  with False have x: "0 < x" by simp
  define q :: rat where "q = 2 powi (max (binade x) (- 1022) - 52)"
  have q: "0 < q" by (simp add: q_def)
  have "of_int 0 \<le> x / q" using x q by simp
  then have "0 \<le> round_half_even (x / q)" by (rule round_half_even_ge)
  then show ?thesis using q by (simp add: round64_pos [OF x] q_def [symmetric])
qed












subsection \<open>Heatmap\<close>

lemma map_of_vals:
  "map_of (foldl (\<lambda>vs col. AList.update col (f col) vs) acc cs) k
     = (if k \<in> set cs then Some (f k) else map_of acc k)"
  by (induction cs arbitrary: acc) (simp_all add: AList.update_conv')

lemma val_or0_rowData:
  assumes "rd \<in> set (rowData cd)"
  shows "val_or0 rd col = (if col \<in> set (cols cd) then metric_value cd (row rd) col else 0)"
  using assms by (auto simp: rowData_def val_or0_def map_of_vals)

lemma metric_value_nonneg: "0 \<le> metric_value cd r c"
  by (simp add: metric_value_def Let_def round64_nonneg)

lemma val_or0_nonneg: "rd \<in> set (rowData cd) \<Longrightarrow> 0 \<le> val_or0 rd col"
  by (simp add: val_or0_rowData metric_value_nonneg)

















subsection \<open>Overlapping invocations\<close>

text \<open>
  Claim C5 as stated fails: the source has no generation counter and discards no
  response. In \<open>superseded_trace\<close> the invocation started before the click receives
  its marginal totals after the invocation started after the click has finished.
  Afterwards the filter \<open>industry = 'Retail'\<close> is active and nothing is pending; an
  invocation for this state shows the no-data placeholder, yet the container shows
  the table of the older, unfiltered invocation, and its Matrix is the stored one.
\<close>

theorem stale_response_counterexample:
  "activeFilters (the_page (run survey_partial fresh_app superseded_trace))
     = [(''industry'', ''Retail'')]
   \<and> tasks (run survey_partial fresh_app superseded_trace) = []
   \<and> crosstab_results (updateCrosstab survey_partial
         (the_page (run survey_partial fresh_app superseded_trace))) = NoDataMatches
   \<and> crosstab_results (the_page (run survey_partial fresh_app superseded_trace))
       = Table (tableView (Some ''_total'') Desc
                 (crosstab_of survey_partial [] ''role'' ''region'' ''count''))
   \<and> crosstabData (the_page (run survey_partial fresh_app superseded_trace))
       = Some (crosstab_of survey_partial [] ''role'' ''region'' ''count'')"
proof -
  let ?p0 = "initial_page pivot_selects"
  have d0: "detail_query survey_partial [] ''role'' ''region'' \<noteq> []"
    by code_simp
  have d1: "detail_query survey_partial [(''industry'', ''Retail'')] ''role'' ''region'' = []"
    by code_simp
  have sel: "selects ?p0 ''crosstab-rows'' = ''role''" "selects ?p0 ''crosstab-cols'' = ''region''"
    "selects ?p0 ''crosstab-metric'' = ''count''"
    "selects ?p0 ''filter-role'' = []" "selects ?p0 ''filter-org-size'' = []"
    "selects ?p0 ''filter-industry'' = []" "selects ?p0 ''filter-region'' = []"
    "selects ?p0 ''filter-ai-usage'' = []" "chartFilters ?p0 = []"
    by (simp_all add: initial_page_def pivot_selects_def)
  show ?thesis
    by (simp add: run_def superseded_trace_def fresh_app_def updateCrosstab_def
        updateCrosstab_begin_def updateCrosstab_detail_def updateCrosstab_totals_def
        renderCrosstabTable_def addChartFilter_def activeFilters_def filterConfig_def
        remove_nth_def crosstab_of_def sel d0 d1 Let_def)
qed

lemma sequential_run:
  assumes empty: "tasks a = []"
  shows "the_page (run db a [Invoke, Arrive 0, Arrive 0]) = updateCrosstab db (the_page a)
       \<and> tasks (run db a [Invoke, Arrive 0, Arrive 0]) = []"
proof -
  obtain st1 cont where first: "updateCrosstab_begin (the_page a) = (st1, cont)"
    by (cases "updateCrosstab_begin (the_page a)")
  show ?thesis
  proof (cases cont)
    case None
    have s1: "step db a Invoke = a\<lparr>the_page := st1\<rparr>"
      by (simp add: first None)
    have s2: "step db (a\<lparr>the_page := st1\<rparr>) (Arrive 0) = a\<lparr>the_page := st1\<rparr>"
      by (simp add: empty)
    have r: "run db a [Invoke, Arrive 0, Arrive 0] = a\<lparr>the_page := st1\<rparr>"
      by (simp only: run_def foldl.simps s1 s2)
    have u: "updateCrosstab db (the_page a) = st1"
      by (simp add: updateCrosstab_def first None)
    show ?thesis
      by (simp add: r u empty)
  next
    case (Some rq)
    let ?data = "detail_query db (req_where rq) (req_rowCol rq) (req_colCol rq)"
    obtain st2 more where detail: "updateCrosstab_detail rq (Inr ?data) st1 = (st2, more)"
      by (cases "updateCrosstab_detail rq (Inr ?data) st1")
    have s1: "step db a Invoke = a\<lparr>the_page := st1, tasks := [AwaitDetail rq]\<rparr>"
      by (simp add: first Some empty)
    show ?thesis
    proof (cases more)
      case False
      have s2: "step db (a\<lparr>the_page := st1, tasks := [AwaitDetail rq]\<rparr>) (Arrive 0)
          = a\<lparr>the_page := st2, tasks := []\<rparr>"
        by (simp add: detail False remove_nth_def)
      have s3: "step db (a\<lparr>the_page := st2, tasks := []\<rparr>) (Arrive 0)
          = a\<lparr>the_page := st2, tasks := []\<rparr>"
        by simp
      have r: "run db a [Invoke, Arrive 0, Arrive 0] = a\<lparr>the_page := st2, tasks := []\<rparr>"
        by (simp only: run_def foldl.simps s1 s2 s3)
      have u: "updateCrosstab db (the_page a) = st2"
        by (simp add: updateCrosstab_def first Some detail False)
      show ?thesis
        by (simp add: r u)
    next
      case True
      have s2: "step db (a\<lparr>the_page := st1, tasks := [AwaitDetail rq]\<rparr>) (Arrive 0)
          = a\<lparr>the_page := st2, tasks := [AwaitTotals rq ?data]\<rparr>"
        by (simp add: detail True)
      have s3: "step db (a\<lparr>the_page := st2, tasks := [AwaitTotals rq ?data]\<rparr>) (Arrive 0)
          = a\<lparr>the_page := updateCrosstab_totals rq ?data
                              (Inr (totals_query db (req_where rq) (req_rowCol rq),
                                    totals_query db (req_where rq) (req_colCol rq))) st2,
              tasks := []\<rparr>"
        by (simp add: remove_nth_def)
      have r: "run db a [Invoke, Arrive 0, Arrive 0]
          = a\<lparr>the_page := updateCrosstab_totals rq ?data
                              (Inr (totals_query db (req_where rq) (req_rowCol rq),
                                    totals_query db (req_where rq) (req_colCol rq))) st2,
              tasks := []\<rparr>"
        by (simp only: run_def foldl.simps s1 s2 s3)
      have u: "updateCrosstab db (the_page a)
          = updateCrosstab_totals rq ?data
              (Inr (totals_query db (req_where rq) (req_rowCol rq),
                    totals_query db (req_where rq) (req_colCol rq))) st2"
        by (simp add: updateCrosstab_def first Some detail True)
      show ?thesis
        by (simp add: r u)
    qed
  qed
qed

text \<open>
  Claim C5, amended. No query batch carries a generation counter. When the marginal
  totals awaited by a pending invocation arrive, this invocation stores the Matrix
  assembled from its own captured dimensions, filters and detail rows, resets the sort
  and renders the table, whatever the filters of the page are by then and whatever
  else is pending; it shows no error and leaves the filter state alone. The rendered
  state is thus that of the response that arrived last. When an invocation receives
  its answers before anything else happens, the page is the one \<open>updateCrosstab\<close>
  gives for the state at its start.
\<close>

theorem arrival_renders:
  assumes i: "i < length (tasks a)" and t: "tasks a ! i = AwaitTotals rq data"
  shows "crosstabData (the_page (step db a (Arrive i)))
           = Some (assemble (req_rowCol rq) (req_colCol rq) (req_metric rq) data
                     (totals_query db (req_where rq) (req_rowCol rq))
                     (totals_query db (req_where rq) (req_colCol rq)))
       \<and> crosstab_results (the_page (step db a (Arrive i)))
           = Table (tableView (Some ''_total'') Desc
                     (assemble (req_rowCol rq) (req_colCol rq) (req_metric rq) data
                        (totals_query db (req_where rq) (req_rowCol rq))
                        (totals_query db (req_where rq) (req_colCol rq))))
       \<and> chartFilters (the_page (step db a (Arrive i))) = chartFilters (the_page a)
       \<and> selects (the_page (step db a (Arrive i))) = selects (the_page a)
       \<and> issued (the_page (step db a (Arrive i))) = issued (the_page a)
       \<and> tasks (step db a (Arrive i)) = remove_nth i (tasks a)
       \<and> (tasks a' = [] \<longrightarrow>
            the_page (run db a' [Invoke, Arrive 0, Arrive 0]) = updateCrosstab db (the_page a')
            \<and> tasks (run db a' [Invoke, Arrive 0, Arrive 0]) = [])"
proof -
  have arrive: "step db a (Arrive i)
      = a\<lparr>the_page := updateCrosstab_totals rq data
                         (Inr (totals_query db (req_where rq) (req_rowCol rq),
                               totals_query db (req_where rq) (req_colCol rq)))
                         (the_page a),
          tasks := remove_nth i (tasks a)\<rparr>"
    using i t by simp
  have seq: "tasks a' = [] \<longrightarrow>
            the_page (run db a' [Invoke, Arrive 0, Arrive 0]) = updateCrosstab db (the_page a')
            \<and> tasks (run db a' [Invoke, Arrive 0, Arrive 0]) = []"
    by (rule impI) (rule sequential_run)
  show ?thesis
    unfolding arrive using seq
    by (simp add: updateCrosstab_totals_def renderCrosstabTable_def)
qed


theorem arrival_renders_witness:
  "crosstabData (the_page (step survey_with_null
       \<lparr>the_page = initial_page pivot_selects,
        tasks = [AwaitTotals \<lparr>req_rowCol = ''role'', req_colCol = ''region'',
                               req_metric = ''count'', req_where = []\<rparr>
                   (detail_query survey_with_null [] ''role'' ''region'')]\<rparr>
       (Arrive 0)))
     = Some (crosstab_of survey_with_null [] ''role'' ''region'' ''count'')
   \<and> tasks (step survey_with_null
       \<lparr>the_page = initial_page pivot_selects,
        tasks = [AwaitTotals \<lparr>req_rowCol = ''role'', req_colCol = ''region'',
                               req_metric = ''count'', req_where = []\<rparr>
                   (detail_query survey_with_null [] ''role'' ''region'')]\<rparr>
       (Arrive 0)) = []"
proof -
  let ?rq = "\<lparr>req_rowCol = ''role'', req_colCol = ''region'', req_metric = ''count'',
              req_where = []\<rparr>"
  let ?data = "detail_query survey_with_null [] ''role'' ''region''"
  let ?a = "\<lparr>the_page = initial_page pivot_selects, tasks = [AwaitTotals ?rq ?data]\<rparr>"
  have i: "0 < length (tasks ?a)" by simp
  have t: "tasks ?a ! 0 = AwaitTotals ?rq ?data" by simp
  note inst = arrival_renders [OF i t, of survey_with_null]
  have "crosstabData (the_page (step survey_with_null ?a (Arrive 0)))
      = Some (crosstab_of survey_with_null [] ''role'' ''region'' ''count'')"
    using inst [THEN conjunct1] by (simp add: crosstab_of_def)
  moreover have "tasks (step survey_with_null ?a (Arrive 0)) = []"
    using inst by (simp add: remove_nth_def)
  ultimately show ?thesis by simp
qed


end
